theory Spec2Isabelle
  imports Main "HOL-Library.AList" "HOL-Library.Sublist"
begin

section \<open>Python values, errors and the builtins the client relies on\<close>

text \<open>
  The client works on decoded JSON bodies, which in Python are \<open>None\<close>, booleans, integers,
  floats, strings, lists and dictionaries with string keys. A dictionary is an association
  list in insertion order; a decoded dictionary has pairwise distinct keys. A \<open>char\<close> stands
  for a code point below 256. The type \<open>'f\<close> is the type of Python floats.
\<close>

datatype 'f json =
    JNull
  | JBool bool
  | JInt int
  | JFloat 'f
  | JStr string
  | JList "'f json list"
  | JObj "(string \<times> 'f json) list"

text \<open>
  Exceptions are values. \<open>PySolarCloudException\<close> carries its constructor argument (a decoded
  body or a message string); \<open>KeyError\<close> carries the missing key. \<open>TransportError\<close> stands for
  whatever the injected \<open>auth\<close> collaborator raises.
\<close>

datatype 'f error =
    KeyError "'f json"
  | TypeError
  | IndexError
  | AttributeError
  | ValueError
  | OverflowError
  | PySolarCloudException "'f json"
  | TransportError string

text \<open>
  Builtins of the Python runtime that are not part of the repository and are taken as
  parameters: \<open>float(s)\<close> on a string (\<open>None\<close> is \<open>ValueError\<close>), \<open>float(i)\<close> on an integer
  (\<open>None\<close> is \<open>OverflowError\<close>), and \<open>repr\<close> of floats, lists and dictionaries.
\<close>

record 'f builtins =
  float_of_str :: "string \<Rightarrow> 'f option"
  float_of_int :: "int \<Rightarrow> 'f option"
  repr_of :: "'f json \<Rightarrow> string"

definition bind_e :: "'e + 'a \<Rightarrow> ('a \<Rightarrow> 'e + 'b) \<Rightarrow> 'e + 'b" where
  "bind_e m f = (case m of Inl e \<Rightarrow> Inl e | Inr x \<Rightarrow> f x)"

text \<open>\<open>str.isdigit()\<close>: a non-empty string of digit characters. Below code point 256 the
  digit characters are \<open>0\<close> to \<open>9\<close> and the superscripts two, three and one.\<close>

definition isdigit_char :: "char \<Rightarrow> bool" where
  "isdigit_char c =
     (let n = (of_char c :: nat) in (48 \<le> n \<and> n \<le> 57) \<or> n = 178 \<or> n = 179 \<or> n = 185)"

definition isdigit :: "string \<Rightarrow> bool" where
  "isdigit s = (s \<noteq> [] \<and> list_all isdigit_char s)"

text \<open>\<open>str(i)\<close> for an integer: its decimal numeral.\<close>

function str_nat :: "nat \<Rightarrow> string" where
  "str_nat n =
     (if n < 10 then [''0123456789'' ! n]
      else str_nat (n div 10) @ [''0123456789'' ! (n mod 10)])"
  by pat_completeness auto
termination
  by (relation "measure (\<lambda>n. n)") auto

definition str_int :: "int \<Rightarrow> string" where
  "str_int i = (if i < 0 then CHR ''-'' # str_nat (nat (- i)) else str_nat (nat i))"

definition py_str :: "'f builtins \<Rightarrow> 'f json \<Rightarrow> string" where
  "py_str rt v =
     (case v of
        JStr s \<Rightarrow> s
      | JInt i \<Rightarrow> str_int i
      | JBool b \<Rightarrow> (if b then ''True'' else ''False'')
      | JNull \<Rightarrow> ''None''
      | _ \<Rightarrow> repr_of rt v)"

text \<open>\<open>float(v)\<close>.\<close>

definition py_float :: "'f builtins \<Rightarrow> 'f json \<Rightarrow> 'f error + 'f" where
  "py_float rt v =
     (case v of
        JStr s \<Rightarrow> (case float_of_str rt s of None \<Rightarrow> Inl ValueError | Some x \<Rightarrow> Inr x)
      | JInt i \<Rightarrow> (case float_of_int rt i of None \<Rightarrow> Inl OverflowError | Some x \<Rightarrow> Inr x)
      | JBool b \<Rightarrow>
          (case float_of_int rt (if b then 1 else 0) of
             None \<Rightarrow> Inl OverflowError | Some x \<Rightarrow> Inr x)
      | JFloat x \<Rightarrow> Inr x
      | _ \<Rightarrow> Inl TypeError)"

text \<open>\<open>v[k]\<close> for a string key \<open>k\<close>, \<open>v[0]\<close>, \<open>v.get(k, d)\<close>, \<open>v.items()\<close>, iteration
  \<open>for x in v\<close>, and the membership test \<open>k in v\<close> for a string \<open>k\<close>.\<close>

definition py_getitem :: "'f json \<Rightarrow> string \<Rightarrow> 'f error + 'f json" where
  "py_getitem v k =
     (case v of
        JObj kvs \<Rightarrow> (case map_of kvs k of None \<Rightarrow> Inl (KeyError (JStr k)) | Some x \<Rightarrow> Inr x)
      | _ \<Rightarrow> Inl TypeError)"

definition py_getitem0 :: "'f json \<Rightarrow> 'f error + 'f json" where
  "py_getitem0 v =
     (case v of
        JList xs \<Rightarrow> (case xs of [] \<Rightarrow> Inl IndexError | x # _ \<Rightarrow> Inr x)
      | JStr s \<Rightarrow> (case s of [] \<Rightarrow> Inl IndexError | c # _ \<Rightarrow> Inr (JStr [c]))
      | JObj kvs \<Rightarrow> Inl (KeyError (JInt 0))
      | _ \<Rightarrow> Inl TypeError)"

definition py_get :: "'f json \<Rightarrow> string \<Rightarrow> 'f json \<Rightarrow> 'f error + 'f json" where
  "py_get v k d =
     (case v of
        JObj kvs \<Rightarrow> Inr (case map_of kvs k of None \<Rightarrow> d | Some x \<Rightarrow> x)
      | _ \<Rightarrow> Inl AttributeError)"

definition py_items :: "'f json \<Rightarrow> 'f error + (string \<times> 'f json) list" where
  "py_items v = (case v of JObj kvs \<Rightarrow> Inr kvs | _ \<Rightarrow> Inl AttributeError)"

definition py_iter :: "'f json \<Rightarrow> 'f error + 'f json list" where
  "py_iter v =
     (case v of
        JList xs \<Rightarrow> Inr xs
      | JObj kvs \<Rightarrow> Inr (map (\<lambda>kv. JStr (fst kv)) kvs)
      | JStr s \<Rightarrow> Inr (map (\<lambda>c. JStr [c]) s)
      | _ \<Rightarrow> Inl TypeError)"

fun has_substr :: "string \<Rightarrow> string \<Rightarrow> bool" where
  "has_substr p [] = (p = [])"
| "has_substr p (c # cs) = (prefix p (c # cs) \<or> has_substr p cs)"

definition py_contains :: "string \<Rightarrow> 'f json \<Rightarrow> 'f error + bool" where
  "py_contains k v =
     (case v of
        JObj kvs \<Rightarrow> Inr (k \<in> set (map fst kvs))
      | JList xs \<Rightarrow> Inr (JStr k \<in> set xs)
      | JStr s \<Rightarrow> Inr (has_substr k s)
      | _ \<Rightarrow> Inl TypeError)"

text \<open>\<open>dict(pairs)\<close> and a dictionary comprehension: later pairs overwrite earlier ones,
  a key keeps the position of its first insertion.\<close>

definition dict_of :: "('k \<times> 'v) list \<Rightarrow> ('k \<times> 'v) list" where
  "dict_of kvs = fold (\<lambda>kv d. AList.update (fst kv) (snd kv) d) kvs []"

section \<open>The transport collaborator\<close>

text \<open>
  \<open>auth.request(uri, params, lang=...)\<close> either raises or returns a response object, whose
  \<open>raise_for_status()\<close> may raise and whose \<open>json()\<close> either raises or returns the decoded body.
  Every function below that calls the transport returns the list of requests it issued
  together with its outcome.
\<close>

record 'f request =
  uri :: string
  params :: "(string \<times> 'f json) list"
  lang_kw :: "string option"

record 'f response =
  status_error :: "'f error option"
  body :: "'f error + 'f json"

type_synonym 'f transport = "'f request \<Rightarrow> 'f error + 'f response"

definition raise_for_status :: "'f response \<Rightarrow> 'f error + unit" where
  "raise_for_status res = (case status_error res of Some e \<Rightarrow> Inl e | None \<Rightarrow> Inr ())"

section \<open>plants.py: the measure point registry\<close>

definition measure_points :: "(string \<times> string) list" where
  "measure_points =
    [(''83022'', ''daily_yield''),
     (''83024'', ''total_yield''),
     (''83033'', ''power''),
     (''83019'', ''power_fraction''),
     (''83006'', ''meter_daily_yield''),
     (''83020'', ''meter_total_yield''),
     (''83011'', ''meter_e_daily_consumption''),
     (''83021'', ''accumulative_power_consumption_by_meter''),
     (''83032'', ''meter_ac_power''),
     (''83007'', ''meter_pr''),
     (''83002'', ''inverter_ac_power''),
     (''83009'', ''inverter_daily_yield''),
     (''83004'', ''inverter_total_yield''),
     (''83012'', ''p_radiation_h''),
     (''83013'', ''daily_irradiation''),
     (''83023'', ''plant_pr''),
     (''83005'', ''daily_equivalent_hours''),
     (''83025'', ''plant_equivalent_hours''),
     (''83018'', ''daily_yield_theoretical''),
     (''83001'', ''inverter_ac_power_normalization''),
     (''83008'', ''daily_equivalent_hours_of_inverter''),
     (''83010'', ''inverter_pr''),
     (''83016'', ''plant_ambient_temperature''),
     (''83017'', ''plant_module_temperature''),
     (''83046'', ''pcs_total_active_power''),
     (''83052'', ''total_load_active_power''),
     (''83067'', ''total_active_power_of_pv''),
     (''83097'', ''daily_direct_energy_consumption''),
     (''83100'', ''total_direct_energy_consumption''),
     (''83102'', ''energy_purchased_today''),
     (''83105'', ''total_purchased_energy''),
     (''83106'', ''load_power''),
     (''83118'', ''daily_load_consumption''),
     (''83124'', ''total_load_consumption''),
     (''83119'', ''daily_feed_in_energy_pv''),
     (''83072'', ''feed_in_energy_today''),
     (''83075'', ''feed_in_energy_total''),
     (''83252'', ''battery_level_soc''),
     (''83129'', ''battery_soc''),
     (''83232'', ''total_field_soc''),
     (''83233'', ''total_field_maximum_rechargeable_power''),
     (''83234'', ''total_field_maximum_dischargeable_power''),
     (''83235'', ''total_field_chargeable_energy''),
     (''83236'', ''total_field_dischargeable_energy''),
     (''83237'', ''total_field_energy_storage_maximum_reactive_power''),
     (''83238'', ''total_field_energy_storage_active_power''),
     (''83239'', ''total_field_reactive_power''),
     (''83240'', ''total_field_power_factor''),
     (''83243'', ''daily_field_charge_capacity''),
     (''83241'', ''total_field_charge_capacity''),
     (''83244'', ''daily_field_discharge_capacity''),
     (''83242'', ''total_field_discharge_capacity''),
     (''83548'', ''total_number_of_charge_discharge''),
     (''83549'', ''grid_active_power''),
     (''83419'', ''daily_highest_inverter_power_inverter_installed_capacity''),
     (''83317'', ''power_forecast''),
     (''83318'', ''planned_es_charging_discharging_power''),
     (''83319'', ''planned_es_soc''),
     (''83320'', ''planned_charging_power''),
     (''83321'', ''planned_discharging_power''),
     (''83322'', ''ess_daily_charge_ems''),
     (''83324'', ''energy_storage_cumulative_charge''),
     (''83323'', ''ess_daily_discharge_ems''),
     (''83325'', ''cumulative_discharge''),
     (''83327'', ''energy_storage_remaining_charge''),
     (''83326'', ''energy_storage_active_power_ems''),
     (''83328'', ''grid_active_power_ems''),
     (''83329'', ''pv_active_power_ems''),
     (''83330'', ''load_active_power_ems''),
     (''83331'', ''daily_pv_yield_ems''),
     (''83332'', ''total_pv_yield''),
     (''83334'', ''energy_storage_soc_ems''),
     (''83335'', ''energy_storage_remaining_charge_ems'')]"

text \<open>\<open>self.measure_points.get(point_id, point_id)\<close>.\<close>

definition code_of :: "string \<Rightarrow> string" where
  "code_of point_id = (case map_of measure_points point_id of None \<Rightarrow> point_id | Some c \<Rightarrow> c)"

text \<open>\<open>{v: k for k, v in self.measure_points.items()}\<close> and the lookup
  \<open>measure_points_map[m]\<close>.\<close>

definition measure_points_map :: "(string \<times> string) list" where
  "measure_points_map = dict_of (map (\<lambda>kv. (snd kv, fst kv)) measure_points)"

definition id_of :: "string \<Rightarrow> 'f error + string" where
  "id_of m =
     (case map_of measure_points_map m of None \<Rightarrow> Inl (KeyError (JStr m)) | Some k \<Rightarrow> Inr k)"

text \<open>The list comprehension
  \<open>[m if m.isdigit() else measure_points_map[m] for m in measure_points]\<close>: the first name
  that cannot be resolved raises.\<close>

fun resolve_names :: "string list \<Rightarrow> 'f error + string list" where
  "resolve_names [] = Inr []"
| "resolve_names (m # rest) =
     (case (if isdigit m then Inr m else id_of m) of
        Inl e \<Rightarrow> Inl e
      | Inr i \<Rightarrow> (case resolve_names rest of Inl e \<Rightarrow> Inl e | Inr is \<Rightarrow> Inr (i # is)))"

definition resolve_points :: "string list option \<Rightarrow> 'f error + string list" where
  "resolve_points mps =
     (case mps of None \<Rightarrow> Inr (map fst measure_points) | Some ms \<Rightarrow> resolve_names ms)"

section \<open>plants.py: realtime data\<close>

record 'f reading =
  rd_id :: string
  rd_code :: string
  rd_value :: "'f json"
  rd_unit :: "'f json"
  rd_name :: "'f json"

type_synonym 'f realtime = "(string \<times> (string \<times> 'f reading) list) list"

text \<open>The \<open>try\<close> block of \<open>_format_measure_point\<close>: only \<open>ValueError\<close> is caught.\<close>

definition coerce_value :: "'f builtins \<Rightarrow> 'f json \<Rightarrow> 'f error + 'f json" where
  "coerce_value rt point_value =
     (if point_value \<noteq> JNull then
        (case py_float rt point_value of
           Inr x \<Rightarrow> Inr (JFloat x)
         | Inl ValueError \<Rightarrow> Inr point_value
         | Inl e \<Rightarrow> Inl e)
      else Inr JNull)"

text \<open>\<open>point_dict.get(point_id, {}).get(field, None)\<close>.\<close>

definition catalog_field ::
  "(string \<times> 'f json) list \<Rightarrow> string \<Rightarrow> string \<Rightarrow> 'f error + 'f json" where
  "catalog_field point_dict point_id field =
     py_get (case map_of point_dict point_id of None \<Rightarrow> JObj [] | Some p \<Rightarrow> p) field JNull"

definition format_measure_point ::
  "'f builtins \<Rightarrow> string \<Rightarrow> 'f json \<Rightarrow> (string \<times> 'f json) list \<Rightarrow> 'f error + 'f reading" where
  "format_measure_point rt point_id point_value point_dict =
     bind_e (coerce_value rt point_value) (\<lambda>v.
     bind_e (catalog_field point_dict point_id ''point_unit'') (\<lambda>u.
     bind_e (catalog_field point_dict point_id ''point_name'') (\<lambda>n.
       Inr \<lparr>rd_id = point_id, rd_code = code_of point_id, rd_value = v,
            rd_unit = u, rd_name = n\<rparr>)))"

text \<open>Line 74: the pairs \<open>(str(point["point_id"]), point)\<close>, then \<open>dict\<close> of them.\<close>

fun point_pairs :: "'f builtins \<Rightarrow> 'f json list \<Rightarrow> 'f error + (string \<times> 'f json) list" where
  "point_pairs rt [] = Inr []"
| "point_pairs rt (point # rest) =
     (case py_getitem point ''point_id'' of
        Inl e \<Rightarrow> Inl e
      | Inr i \<Rightarrow>
          (case point_pairs rt rest of
             Inl e \<Rightarrow> Inl e
           | Inr ps \<Rightarrow> Inr ((py_str rt i, point) # ps)))"

text \<open>Line 77: the readings of one plant record, for the fields \<open>k\<close> with \<open>k[0] == 'p'\<close> and
  \<open>k[1:].isdigit()\<close>; \<open>k[0]\<close> of an empty key raises \<open>IndexError\<close>.\<close>

fun plant_data ::
  "'f builtins \<Rightarrow> (string \<times> 'f json) list \<Rightarrow> (string \<times> 'f json) list
     \<Rightarrow> 'f error + 'f reading list" where
  "plant_data rt point_dict [] = Inr []"
| "plant_data rt point_dict ((k, v) # items) =
     (case k of
        [] \<Rightarrow> Inl IndexError
      | c # ks \<Rightarrow>
          if c = CHR ''p'' \<and> isdigit ks then
            (case format_measure_point rt ks v point_dict of
               Inl e \<Rightarrow> Inl e
             | Inr d \<Rightarrow>
                 (case plant_data rt point_dict items of
                    Inl e \<Rightarrow> Inl e
                  | Inr ds \<Rightarrow> Inr (d # ds)))
          else plant_data rt point_dict items)"

text \<open>The fields that line 77 keeps, among the non-empty keys.\<close>

definition is_point_key :: "string \<Rightarrow> bool" where
  "is_point_key k = (case k of [] \<Rightarrow> False | c # ks \<Rightarrow> c = CHR ''p'' \<and> isdigit ks)"

text \<open>Lines 76 to 79: the loop over the plant records, with the dictionary \<open>plants\<close> as
  accumulator.\<close>

fun plants_loop ::
  "'f builtins \<Rightarrow> (string \<times> 'f json) list \<Rightarrow> 'f json list \<Rightarrow> 'f realtime
     \<Rightarrow> 'f error + 'f realtime" where
  "plants_loop rt point_dict [] plants = Inr plants"
| "plants_loop rt point_dict (plant # rest) plants =
     (case py_items plant of
        Inl e \<Rightarrow> Inl e
      | Inr items \<Rightarrow>
          (case plant_data rt point_dict items of
             Inl e \<Rightarrow> Inl e
           | Inr data \<Rightarrow>
               (let data_as_dict = dict_of (map (\<lambda>d. (rd_code d, d)) data) in
                case py_getitem plant ''ps_id'' of
                  Inl e \<Rightarrow> Inl e
                | Inr i \<Rightarrow>
                    plants_loop rt point_dict rest
                      (AList.update (py_str rt i) data_as_dict plants))))"

text \<open>Lines 71 to 81: what is done with the decoded body.\<close>

definition reshape :: "'f builtins \<Rightarrow> 'f json \<Rightarrow> 'f error + 'f realtime" where
  "reshape rt res =
     bind_e (py_contains ''error'' res) (\<lambda>err.
       if err then Inl (PySolarCloudException res)
       else
         bind_e (py_getitem res ''result_data'') (\<lambda>rd.
         bind_e (py_getitem rd ''point_dict'') (\<lambda>pl.
         bind_e (py_iter pl) (\<lambda>points.
         bind_e (point_pairs rt points) (\<lambda>pairs.
         bind_e (py_getitem res ''result_data'') (\<lambda>rd'.
         bind_e (py_getitem rd' ''device_point_list'') (\<lambda>dl.
         bind_e (py_iter dl) (\<lambda>plant_list.
           plants_loop rt (dict_of pairs) plant_list []))))))))"

text \<open>The argument \<open>plant_id: str | list[str]\<close>.\<close>

datatype plant_arg = One string | Many "string list"

definition ps_of :: "plant_arg \<Rightarrow> string list" where
  "ps_of plant_id = (case plant_id of Many l \<Rightarrow> l | One p \<Rightarrow> [p])"

definition realtime_request :: "string \<Rightarrow> string list \<Rightarrow> string list \<Rightarrow> 'f request" where
  "realtime_request lang ps ms =
     \<lparr>uri = ''/openapi/platform/getPowerStationRealTimeData'',
      params = [(''ps_id_list'', JList (map JStr ps)),
                (''point_id_list'', JList (map JStr ms)),
                (''is_get_point_dict'', JStr ''1'')],
      lang_kw = Some lang\<rparr>"

definition async_get_realtime_data ::
  "'f builtins \<Rightarrow> 'f transport \<Rightarrow> string \<Rightarrow> plant_arg \<Rightarrow> string list option
     \<Rightarrow> 'f request list \<times> ('f error + 'f realtime)" where
  "async_get_realtime_data rt auth lang plant_id measure_points_arg =
     (let ps = ps_of plant_id in
      case resolve_points measure_points_arg of
        Inl e \<Rightarrow> ([], Inl e)
      | Inr ms \<Rightarrow>
          (let req = realtime_request lang ps ms in
           ([req], bind_e (auth req) (\<lambda>res. bind_e (body res) (reshape rt)))))"

section \<open>control.py: the capability check\<close>

definition check_failure :: "'f builtins \<Rightarrow> string \<Rightarrow> int \<Rightarrow> 'f json \<Rightarrow> 'f error" where
  "check_failure rt device_uuid set_type data =
     PySolarCloudException
       (JStr (''Could not check support for device '' @ device_uuid @ '' set_type ''
              @ str_int set_type @ '': '' @ py_str rt data))"

definition verify_data ::
  "'f builtins \<Rightarrow> string \<Rightarrow> int \<Rightarrow> 'f json \<Rightarrow> 'f error + bool" where
  "verify_data rt device_uuid set_type data =
     bind_e (py_get data ''result_code'' JNull) (\<lambda>rc.
     bind_e (if rc = JStr ''1''
             then bind_e (py_getitem data ''result_data'') (\<lambda>rd.
                  bind_e (py_getitem rd ''check_result'') (\<lambda>cr. Inr (cr = JStr ''1'')))
             else Inr False) (\<lambda>ok.
       if ok then
         bind_e (py_getitem data ''result_data'') (\<lambda>rd.
         bind_e (py_getitem rd ''dev_result_list'') (\<lambda>dl.
         bind_e (py_getitem0 dl) (\<lambda>dev.
         bind_e (py_getitem dev ''check_result'') (\<lambda>supported.
           if supported = JStr ''1'' then Inr True
           else if supported = JStr ''0'' then Inr False
           else Inl (check_failure rt device_uuid set_type data)))))
       else Inl (check_failure rt device_uuid set_type data)))"

definition async_param_config_verification ::
  "'f builtins \<Rightarrow> 'f transport \<Rightarrow> string \<Rightarrow> int \<Rightarrow> 'f request list \<times> ('f error + bool)" where
  "async_param_config_verification rt auth device_uuid set_type =
     (let req = \<lparr>uri = ''/openapi/platform/paramSettingCheck'',
                 params = [(''set_type'', JInt set_type), (''uuid'', JStr device_uuid)],
                 lang_kw = None\<rparr>
      in ([req],
          bind_e (auth req) (\<lambda>res.
          bind_e (raise_for_status res) (\<lambda>_.
          bind_e (body res) (verify_data rt device_uuid set_type)))))"

section \<open>Stand-ins for the collaborators, for the concrete instances\<close>

text \<open>
  A stand-in for the builtins, with floats written as a pair \<open>(m, e)\<close> for \<open>m / 10 ^ e\<close>:
  \<open>dec_float\<close> reads plain decimal literals only (digits with an optional fraction), which
  is all the concrete instances below need. \<open>sample_auth b\<close> is a transport that answers
  every request with the decoded body \<open>b\<close>.
\<close>

definition ascii_digit :: "char \<Rightarrow> bool" where
  "ascii_digit c = (48 \<le> (of_char c :: nat) \<and> (of_char c :: nat) \<le> 57)"

definition dec_float :: "string \<Rightarrow> (int \<times> nat) option" where
  "dec_float s =
     (let a = takeWhile (\<lambda>c. c \<noteq> CHR ''.'') s;
          b = drop 1 (dropWhile (\<lambda>c. c \<noteq> CHR ''.'') s)
      in if a \<noteq> [] \<and> list_all ascii_digit (a @ b)
         then Some (int (foldl (\<lambda>n c. 10 * n + (of_char c - 48)) 0 (a @ b)), length b)
         else None)"

definition sample_builtins :: "(int \<times> nat) builtins" where
  "sample_builtins =
     \<lparr>float_of_str = dec_float, float_of_int = (\<lambda>i. Some (i, 0)), repr_of = (\<lambda>v. ''?'')\<rparr>"

definition sample_auth :: "'f json \<Rightarrow> 'f transport" where
  "sample_auth b = (\<lambda>req. Inr \<lparr>status_error = None, body = Inr b\<rparr>)"

text \<open>A realtime-data body with the catalogue entries \<open>points\<close> and the plant records
  \<open>plants\<close>.\<close>

definition realtime_body :: "'f json list \<Rightarrow> 'f json list \<Rightarrow> 'f json" where
  "realtime_body points plants =
     JObj [(''req_serial_num'', JStr ''x''),
           (''result_code'', JStr ''1''),
           (''result_data'',
            JObj [(''point_dict'', JList points), (''device_point_list'', JList plants)])]"

text \<open>A \<open>paramSettingCheck\<close> body whose gates are open and whose device flag is \<open>v\<close>.\<close>

definition check_body :: "'f json \<Rightarrow> 'f json" where
  "check_body v =
     JObj [(''req_serial_num'', JStr ''x''),
           (''result_code'', JStr ''1''),
           (''result_data'',
            JObj [(''check_result'', JStr ''1''),
                  (''dev_result_list'',
                   JList [JObj [(''uuid'', JInt 1), (''check_result'', v)]])])]"

section \<open>Properties\<close>

declare str_nat.simps [simp del]

subsection \<open>Dictionaries\<close>

lemma update_fresh: "k \<notin> fst ` set d \<Longrightarrow> AList.update k v d = d @ [(k, v)]"
  by (induction d) auto

lemma fold_update_fresh:
  "distinct (map fst kvs) \<Longrightarrow> fst ` set kvs \<inter> fst ` set d = {} \<Longrightarrow>
   fold (\<lambda>kv d. AList.update (fst kv) (snd kv) d) kvs d = d @ kvs"
proof (induction kvs arbitrary: d)
  case Nil
  then show ?case by simp
next
  case (Cons kv kvs)
  have fresh: "fst kv \<notin> fst ` set d"
    using Cons.prems(2) by auto
  have disj: "fst ` set kvs \<inter> fst ` set (d @ [kv]) = {}"
    using Cons.prems by auto
  have "fold (\<lambda>kv d. AList.update (fst kv) (snd kv) d) (kv # kvs) d
        = fold (\<lambda>kv d. AList.update (fst kv) (snd kv) d) kvs (d @ [kv])"
    using update_fresh [OF fresh, of "snd kv"] by simp
  also have "\<dots> = (d @ [kv]) @ kvs"
    using Cons.IH [OF _ disj] Cons.prems(1) by simp
  finally show ?case by simp
qed

lemma dict_of_distinct: "distinct (map fst kvs) \<Longrightarrow> dict_of kvs = kvs"
  unfolding dict_of_def using fold_update_fresh [of kvs "[]"] by simp

lemma map_of_fold_update:
  "map_of (fold (\<lambda>kv d. AList.update (fst kv) (snd kv) d) kvs d) = map_of d ++ map_of (rev kvs)"
proof (induction kvs arbitrary: d)
  case Nil
  then show ?case by simp
next
  case (Cons kv kvs)
  show ?case
    by (cases kv) (simp add: Cons.IH AList.update_conv' map_add_upd_left fun_eq_iff map_add_def split: option.splits)
qed

lemma map_of_dict_of: "map_of (dict_of kvs) = map_of (rev kvs)"
  unfolding dict_of_def by (simp add: map_of_fold_update)

lemma keys_dict_of: "fst ` set (dict_of kvs) = fst ` set kvs"
proof -
  have "dom (map_of (dict_of kvs)) = dom (map_of (rev kvs))"
    by (simp add: map_of_dict_of)
  then show ?thesis by (simp add: dom_map_of_conv_image_fst)
qed

lemma distinct_fold_update:
  "distinct (map fst d) \<Longrightarrow> distinct (map fst (fold (\<lambda>kv d. AList.update (fst kv) (snd kv) d) kvs d))"
  by (induction kvs arbitrary: d) (simp_all add: AList.distinct_update)

lemma distinct_dict_of: "distinct (map fst (dict_of kvs))"
  unfolding dict_of_def by (rule distinct_fold_update) simp

lemma measure_points_ids_distinct: "distinct (map fst measure_points)"
  by code_simp

lemma measure_points_codes_distinct: "distinct (map snd measure_points)"
  by code_simp

lemma measure_points_map_swap:
  "measure_points_map = map (\<lambda>kv. (snd kv, fst kv)) measure_points"
  unfolding measure_points_map_def
  by (rule dict_of_distinct) (simp add: comp_def measure_points_codes_distinct)

lemma id_of_registered:
  assumes "(i, n) \<in> set measure_points"
  shows "id_of n = Inr i"
proof -
  have "(n, i) \<in> set (map (\<lambda>kv. (snd kv, fst kv)) measure_points)"
    using assms by force
  moreover have "distinct (map fst (map (\<lambda>kv. (snd kv, fst kv)) measure_points))"
    by (simp add: comp_def measure_points_codes_distinct)
  ultimately have "map_of measure_points_map n = Some i"
    unfolding measure_points_map_swap by (rule map_of_is_SomeI [rotated])
  then show ?thesis by (simp add: id_of_def)
qed

lemma code_of_registered:
  assumes "(i, n) \<in> set measure_points"
  shows "code_of i = n"
  using map_of_is_SomeI [OF measure_points_ids_distinct assms] by (simp add: code_of_def)

lemma id_of_unregistered:
  assumes "n \<notin> snd ` set measure_points"
  shows "id_of n = Inl (KeyError (JStr n))"
proof -
  have "fst ` set measure_points_map = snd ` set measure_points"
    unfolding measure_points_map_def keys_dict_of by (simp add: image_image)
  then have "map_of measure_points_map n = None"
    using assms by (simp add: map_of_eq_None_iff)
  then show ?thesis by (simp add: id_of_def)
qed

subsection \<open>The registry\<close>

text \<open>
  C5. Every semantic name registered in \<open>measure_points\<close> resolves through the reverse map
  \<open>measure_points_map\<close> to a numeric id, and looking that id up in \<open>measure_points\<close> gives the
  name back.
\<close>

theorem registry_round_trip:
  assumes "n \<in> snd ` set measure_points"
  shows "\<exists>i. (id_of n :: 'f error + string) = Inr i \<and> code_of i = n"
proof -
  from assms obtain i where "(i, n) \<in> set measure_points" by force
  then show ?thesis
    using id_of_registered code_of_registered by blast
qed

theorem registry_round_trip_witness:
  "''daily_yield'' \<in> snd ` set measure_points
   \<and> (id_of ''daily_yield'' :: unit error + string) = Inr ''83022''
   \<and> code_of ''83022'' = ''daily_yield''"
proof -
  have a: "''daily_yield'' \<in> snd ` set measure_points"
    by (simp add: measure_points_def)
  have b: "(id_of ''daily_yield'' :: unit error + string) = Inr ''83022''"
    by code_simp
  from registry_round_trip [OF a, where ?'f = unit] b a show ?thesis
    by auto
qed

subsection \<open>Resolving the requested names\<close>

lemma resolve_names_ok:
  "(\<forall>m \<in> set l. isdigit m \<or> m \<in> snd ` set measure_points) \<Longrightarrow>
   \<exists>ms. (resolve_names l :: 'f error + string list) = Inr ms
      \<and> list_all2 (\<lambda>m i. if isdigit m then i = m else (i, m) \<in> set measure_points) l ms"
proof (induction l)
  case Nil
  then show ?case by simp
next
  case (Cons m l)
  then obtain ms where ms: "(resolve_names l :: 'f error + string list) = Inr ms"
      "list_all2 (\<lambda>m i. if isdigit m then i = m else (i, m) \<in> set measure_points) l ms"
    by auto
  show ?case
  proof (cases "isdigit m")
    case True
    then show ?thesis using ms by simp
  next
    case False
    with Cons.prems obtain i where i: "(i, m) \<in> set measure_points" by force
    have "(id_of m :: 'f error + string) = Inr i"
      by (rule id_of_registered [OF i])
    then show ?thesis using False ms i by simp
  qed
qed

lemma resolve_names_unknown:
  "m \<in> set l \<Longrightarrow> \<not> isdigit m \<Longrightarrow> m \<notin> snd ` set measure_points \<Longrightarrow>
   \<exists>m'. m' \<in> set l \<and> \<not> isdigit m' \<and> m' \<notin> snd ` set measure_points
      \<and> (resolve_names l :: 'f error + string list) = Inl (KeyError (JStr m'))"
proof (induction l)
  case Nil
  then show ?case by simp
next
  case (Cons x l)
  show ?case
  proof (cases "\<not> isdigit x \<and> x \<notin> snd ` set measure_points")
    case True
    then show ?thesis by (auto simp: id_of_unregistered)
  next
    case False
    have here: "\<exists>i. (if isdigit x then Inr x else (id_of x :: 'f error + string)) = Inr i"
    proof (cases "isdigit x")
      case True
      then show ?thesis by simp
    next
      case nd: False
      with False obtain i where "(i, x) \<in> set measure_points" by force
      then have "(id_of x :: 'f error + string) = Inr i" by (rule id_of_registered)
      with nd show ?thesis by simp
    qed
    from False Cons.prems have "m \<in> set l" by auto
    from Cons.IH [OF this Cons.prems(2,3)] obtain m' where m': "m' \<in> set l" "\<not> isdigit m'"
        "m' \<notin> snd ` set measure_points"
        "(resolve_names l :: 'f error + string list) = Inl (KeyError (JStr m'))"
      by blast
    from here obtain i where "(if isdigit x then Inr x else (id_of x :: 'f error + string)) = Inr i"
      by blast
    then have "(resolve_names (x # l) :: 'f error + string list) = Inl (KeyError (JStr m'))"
      using m'(4) by simp
    then show ?thesis using m' by auto
  qed
qed

text \<open>
  C1. If the list \<open>measure_points\<close> passed to \<open>async_get_realtime_data\<close> holds a name that is
  neither accepted by \<open>isdigit\<close> nor registered, the call raises the \<open>KeyError\<close> of the
  reverse-map lookup for the first such name, and the list of issued requests is empty.
\<close>

theorem unknown_name_fails_before_request:
  assumes "m \<in> set mps" and "\<not> isdigit m" and "m \<notin> snd ` set measure_points"
  shows "\<exists>m'. m' \<in> set mps \<and> \<not> isdigit m' \<and> m' \<notin> snd ` set measure_points
           \<and> async_get_realtime_data rt auth lang plant_id (Some mps)
               = ([], Inl (KeyError (JStr m')))"
proof -
  from resolve_names_unknown [OF assms, where ?'f = 'a] obtain m' where
    "m' \<in> set mps" "\<not> isdigit m'" "m' \<notin> snd ` set measure_points"
    "(resolve_names mps :: 'a error + string list) = Inl (KeyError (JStr m'))"
    by blast
  then show ?thesis
    by (auto simp: async_get_realtime_data_def resolve_points_def)
qed

lemma bogus_unregistered: "''bogus_metric'' \<notin> snd ` set measure_points"
  by (simp add: measure_points_def)

theorem unknown_name_fails_before_request_witness:
  "''bogus_metric'' \<in> set [''power'', ''bogus_metric'']
   \<and> \<not> isdigit ''bogus_metric''
   \<and> ''bogus_metric'' \<notin> snd ` set measure_points
   \<and> async_get_realtime_data sample_builtins (sample_auth JNull) ''_en_US'' (One ''P1'')
        (Some [''power'', ''bogus_metric''])
       = ([], Inl (KeyError (JStr ''bogus_metric'')))"
proof -
  have a: "''bogus_metric'' \<in> set [''power'', ''bogus_metric'']" by simp
  have b: "\<not> isdigit ''bogus_metric''" by code_simp
  have c: "''power'' \<in> snd ` set measure_points" by (simp add: measure_points_def)
  from unknown_name_fails_before_request [OF a b bogus_unregistered,
      of sample_builtins "sample_auth JNull" "''_en_US''" "One ''P1''"]
  obtain m' where m': "m' \<in> set [''power'', ''bogus_metric'']"
      "m' \<notin> snd ` set measure_points"
      "async_get_realtime_data sample_builtins (sample_auth JNull) ''_en_US'' (One ''P1'')
        (Some [''power'', ''bogus_metric'']) = ([], Inl (KeyError (JStr m')))"
    by blast
  from m'(1) have "m' = ''power'' \<or> m' = ''bogus_metric''" by simp
  with m'(2) c have "m' = ''bogus_metric''" by blast
  with m'(3) a b bogus_unregistered show ?thesis by blast
qed

lemma none_request:
  "fst (async_get_realtime_data rt auth lang plant_id None)
     = [realtime_request lang (ps_of plant_id) (map fst measure_points)]"
  by (simp add: async_get_realtime_data_def resolve_points_def Let_def)

lemma none_request_points:
  "map_of (params (realtime_request lang (ps_of plant_id) (map fst measure_points)
             :: 'f request)) ''point_id_list''
     = Some (JList (map JStr (map fst measure_points)))"
  by (simp add: realtime_request_def)

lemma registered_ids: "set (map fst measure_points) = dom (map_of measure_points)"
  by (simp add: dom_map_of_conv_image_fst)

text \<open>
  C7. With \<open>measure_points=None\<close> exactly one request is issued and its \<open>point_id_list\<close> is a
  duplicate-free list whose elements are exactly the ids registered in \<open>measure_points\<close>.
\<close>

theorem none_requests_every_registered_id:
  "\<exists>ms. fst (async_get_realtime_data rt auth lang plant_id None)
           = [realtime_request lang (ps_of plant_id) ms]
      \<and> map_of (params (realtime_request lang (ps_of plant_id) ms :: 'f request)) ''point_id_list''
           = Some (JList (map JStr ms))
      \<and> distinct ms
      \<and> set ms = dom (map_of measure_points)"
  using none_request [of rt auth lang plant_id]
    none_request_points [of lang plant_id, where ?'f = 'f]
    registered_ids measure_points_ids_distinct
  by blast

lemma resolve_points_ok:
  assumes "\<forall>l. mps = Some l \<longrightarrow> (\<forall>m \<in> set l. isdigit m \<or> m \<in> snd ` set measure_points)"
  shows "\<exists>ms. (resolve_points mps :: 'f error + string list) = Inr ms
      \<and> (case mps of
            None \<Rightarrow> ms = map fst measure_points
          | Some l \<Rightarrow>
              list_all2 (\<lambda>m i. if isdigit m then i = m else (i, m) \<in> set measure_points) l ms)"
proof (cases mps)
  case None
  then show ?thesis by (simp add: resolve_points_def)
next
  case (Some l)
  with assms have "\<forall>m \<in> set l. isdigit m \<or> m \<in> snd ` set measure_points" by simp
  from resolve_names_ok [OF this, where ?'f = 'f] Some show ?thesis
    by (simp add: resolve_points_def)
qed

lemma issued_request:
  "(resolve_points mps :: 'f error + string list) = Inr ms \<Longrightarrow>
   async_get_realtime_data (rt :: 'f builtins) auth lang plant_id mps
     = ([realtime_request lang (ps_of plant_id) ms],
        bind_e (auth (realtime_request lang (ps_of plant_id) ms))
          (\<lambda>res. bind_e (body res) (reshape rt)))"
  by (simp add: async_get_realtime_data_def Let_def)

lemma no_request:
  "(resolve_points mps :: 'f error + string list) = Inl e \<Longrightarrow>
   async_get_realtime_data (rt :: 'f builtins) auth lang plant_id mps = ([], Inl e)"
  by (simp add: async_get_realtime_data_def Let_def)

lemma request_params:
  "map_of (params (realtime_request lang ps ms :: 'f request)) ''ps_id_list''
     = Some (JList (map JStr ps))
   \<and> map_of (params (realtime_request lang ps ms :: 'f request)) ''point_id_list''
     = Some (JList (map JStr ms))
   \<and> map_of (params (realtime_request lang ps ms :: 'f request)) ''is_get_point_dict''
     = Some (JStr ''1'')
   \<and> map fst (params (realtime_request lang ps ms :: 'f request))
     = [''ps_id_list'', ''point_id_list'', ''is_get_point_dict'']"
  by (simp add: realtime_request_def)

subsection \<open>The outbound request\<close>

text \<open>
  C8, as stated, fails: a call whose list of names holds an unresolvable name issues no
  request at all.
\<close>

theorem unresolvable_name_issues_no_request:
  "fst (async_get_realtime_data sample_builtins (sample_auth JNull) ''_en_US'' (One ''P1'')
          (Some [''bogus_metric''])) = []
   \<and> length (fst (async_get_realtime_data sample_builtins (sample_auth JNull) ''_en_US''
          (One ''P1'') (Some [''bogus_metric'']))) \<noteq> 1"
proof -
  have "(resolve_names [''bogus_metric''] :: (int \<times> nat) error + string list)
          = Inl (KeyError (JStr ''bogus_metric''))"
    using id_of_unregistered [OF bogus_unregistered, where ?'a = "int \<times> nat"]
    by (simp add: isdigit_def isdigit_char_def)
  then show ?thesis
    by (simp add: no_request resolve_points_def)
qed

text \<open>
  C8, amended. Every call whose names all resolve (\<open>measure_points\<close> is \<open>None\<close>, or each
  name is accepted by \<open>isdigit\<close> or registered) issues exactly one request. Its parameters
  are \<open>ps_id_list\<close>, the plant ids in the order given (a single id as a one-element list),
  \<open>point_id_list\<close>, the resolved ids, and \<open>is_get_point_dict\<close>, the string \<open>"1"\<close>.
\<close>

theorem one_request_when_names_resolve:
  assumes "\<forall>l. mps = Some l \<longrightarrow> (\<forall>m \<in> set l. isdigit m \<or> m \<in> snd ` set measure_points)"
  shows "\<exists>ms req.
           fst (async_get_realtime_data (rt :: 'f builtins) auth lang plant_id mps) = [req]
         \<and> uri req = ''/openapi/platform/getPowerStationRealTimeData''
         \<and> map fst (params req) = [''ps_id_list'', ''point_id_list'', ''is_get_point_dict'']
         \<and> map_of (params req) ''ps_id_list''
             = Some (JList (map JStr (case plant_id of One p \<Rightarrow> [p] | Many ps \<Rightarrow> ps)))
         \<and> map_of (params req) ''point_id_list'' = Some (JList (map JStr ms))
         \<and> map_of (params req) ''is_get_point_dict'' = Some (JStr ''1'')
         \<and> (resolve_points mps :: 'f error + string list) = Inr ms
         \<and> (case mps of
               None \<Rightarrow> ms = map fst measure_points
             | Some l \<Rightarrow>
                 list_all2 (\<lambda>m i. if isdigit m then i = m else (i, m) \<in> set measure_points)
                   l ms)"
proof -
  from resolve_points_ok [OF assms, where ?'f = 'f] obtain ms where
    ms: "(resolve_points mps :: 'f error + string list) = Inr ms"
      "(case mps of
          None \<Rightarrow> ms = map fst measure_points
        | Some l \<Rightarrow>
            list_all2 (\<lambda>m i. if isdigit m then i = m else (i, m) \<in> set measure_points) l ms)"
    by blast
  let ?req = "realtime_request lang (ps_of plant_id) ms :: 'f request"
  have "fst (async_get_realtime_data rt auth lang plant_id mps) = [?req]"
    by (simp add: issued_request [OF ms(1)])
  moreover have "uri ?req = ''/openapi/platform/getPowerStationRealTimeData''"
    by (simp add: realtime_request_def)
  moreover have "ps_of plant_id = (case plant_id of One p \<Rightarrow> [p] | Many ps \<Rightarrow> ps)"
    by (simp add: ps_of_def split: plant_arg.splits)
  ultimately show ?thesis
    using ms request_params [of lang "ps_of plant_id" ms, where ?'f = 'f]
    by (intro exI [of _ ms] exI [of _ ?req]) simp
qed

theorem one_request_when_names_resolve_witness:
  "\<exists>req. fst (async_get_realtime_data sample_builtins (sample_auth JNull) ''_en_US''
                 (One ''P1'') (Some [''power'', ''83099''])) = [req]
     \<and> map_of (params req) ''ps_id_list'' = Some (JList [JStr ''P1''])
     \<and> map_of (params req) ''point_id_list'' = Some (JList [JStr ''83033'', JStr ''83099''])
     \<and> map_of (params req) ''is_get_point_dict'' = Some (JStr ''1'')"
proof -
  have p: "(''83033'', ''power'') \<in> set measure_points"
    by (simp add: measure_points_def)
  have d: "isdigit ''83099''" "\<not> isdigit ''power''"
    by (simp_all add: isdigit_def isdigit_char_def)
  have h: "\<forall>l. Some [''power'', ''83099''] = Some l \<longrightarrow>
             (\<forall>m \<in> set l. isdigit m \<or> m \<in> snd ` set measure_points)"
    using p d by force
  from one_request_when_names_resolve [OF h, of sample_builtins "sample_auth JNull"
      "''_en_US''" "One ''P1''"]
  obtain ms req where r:
    "fst (async_get_realtime_data sample_builtins (sample_auth JNull) ''_en_US''
                 (One ''P1'') (Some [''power'', ''83099''])) = [req]"
    "map_of (params req) ''ps_id_list'' = Some (JList (map JStr [''P1'']))"
    "map_of (params req) ''point_id_list'' = Some (JList (map JStr ms))"
    "map_of (params req) ''is_get_point_dict'' = Some (JStr ''1'')"
    "list_all2 (\<lambda>m i. if isdigit m then i = m else (i, m) \<in> set measure_points)
       [''power'', ''83099''] ms"
    by auto
  from r(5) d obtain i where ms: "ms = [i, ''83099'']" "(i, ''power'') \<in> set measure_points"
    by (auto simp: list_all2_Cons1)
  have "i = ''83033''"
    using code_of_registered [OF ms(2)] id_of_registered [OF ms(2), where ?'a = unit]
      id_of_registered [OF p, where ?'a = unit] by simp
  with r ms show ?thesis by simp
qed

subsection \<open>Sequencing\<close>

lemma bind_e_Inl [simp]: "bind_e (Inl e) f = Inl e"
  by (simp add: bind_e_def)

lemma bind_e_Inr [simp]: "bind_e (Inr x) f = f x"
  by (simp add: bind_e_def)

lemma bind_e_eq_Inr:
  "bind_e m f = Inr y \<longleftrightarrow> (\<exists>x. m = Inr x \<and> f x = Inr y)"
  by (cases m) simp_all

lemma bind_e_eq_Inl:
  "bind_e m f = Inl e \<longleftrightarrow> m = Inl e \<or> (\<exists>x. m = Inr x \<and> f x = Inl e)"
  by (cases m) auto

subsection \<open>The error path of the decoded body\<close>

lemma issued_request_inv:
  assumes "fst (async_get_realtime_data (rt :: 'f builtins) auth lang plant_id mps) = [req]"
  shows "\<exists>ms. (resolve_points mps :: 'f error + string list) = Inr ms
           \<and> req = realtime_request lang (ps_of plant_id) ms"
proof (cases "resolve_points mps :: 'f error + string list")
  case (Inl e)
  then show ?thesis using assms by (simp add: no_request)
next
  case (Inr ms)
  then show ?thesis using assms by (simp add: issued_request)
qed

text \<open>
  C2. Whenever the request is issued and the decoded body is a dictionary with the key
  \<open>error\<close>, the call raises \<open>PySolarCloudException\<close> carrying that body, whatever else the
  body holds; the outcome is the exception, not a result.
\<close>

theorem error_body_raises:
  assumes "fst (async_get_realtime_data rt auth lang plant_id mps) = [req]"
    and "auth req = Inr res"
    and "body res = Inr (JObj kvs)"
    and "''error'' \<in> fst ` set kvs"
  shows "snd (async_get_realtime_data rt auth lang plant_id mps)
           = Inl (PySolarCloudException (JObj kvs))"
proof -
  from issued_request_inv [OF assms(1)] obtain ms where
    ms: "(resolve_points mps :: 'a error + string list) = Inr ms"
      "req = realtime_request lang (ps_of plant_id) ms"
    by blast
  have "reshape rt (JObj kvs) = Inl (PySolarCloudException (JObj kvs))"
    using assms(4) by (simp add: reshape_def py_contains_def)
  then show ?thesis
    using assms(2,3) ms by (simp add: issued_request [OF ms(1)])
qed

theorem error_body_raises_witness:
  "snd (async_get_realtime_data sample_builtins
          (sample_auth (JObj [(''error'', JStr ''invalid_token''), (''result_data'', JNull)]))
          ''_en_US'' (One ''P1'') (Some [''83022'']))
     = Inl (PySolarCloudException
              (JObj [(''error'', JStr ''invalid_token''), (''result_data'', JNull)]))"
proof -
  let ?b = "JObj [(''error'', JStr ''invalid_token''), (''result_data'', JNull)]
              :: (int \<times> nat) json"
  let ?req = "realtime_request ''_en_US'' [''P1''] [''83022''] :: (int \<times> nat) request"
  have r: "(resolve_points (Some [''83022'']) :: (int \<times> nat) error + string list)
             = Inr [''83022'']"
    by (simp add: resolve_points_def isdigit_def isdigit_char_def)
  have a: "fst (async_get_realtime_data sample_builtins (sample_auth ?b) ''_en_US''
             (One ''P1'') (Some [''83022''])) = [?req]"
    by (simp add: issued_request [OF r] ps_of_def)
  have b: "sample_auth ?b ?req = Inr \<lparr>status_error = None, body = Inr ?b\<rparr>"
    by (simp add: sample_auth_def)
  show ?thesis
    by (rule error_body_raises [OF a b]) simp_all
qed

subsection \<open>Readings\<close>

lemma coerce_value_str:
  "coerce_value rt (JStr s)
     = Inr (case float_of_str rt s of Some x \<Rightarrow> JFloat x | None \<Rightarrow> JStr s)"
  by (simp add: coerce_value_def py_float_def split: option.splits)

lemma coerce_value_null: "coerce_value rt JNull = Inr JNull"
  by (simp add: coerce_value_def)

lemma catalog_field_ok:
  assumes "\<forall>p. map_of point_dict point_id = Some p \<longrightarrow> (\<exists>kvs. p = JObj kvs)"
  shows "\<exists>u. catalog_field point_dict point_id field = Inr u"
proof (cases "map_of point_dict point_id")
  case None
  then show ?thesis by (simp add: catalog_field_def py_get_def)
next
  case (Some p)
  with assms obtain kvs where "p = JObj kvs" by blast
  with Some show ?thesis by (simp add: catalog_field_def py_get_def)
qed

lemma catalog_field_missing:
  "map_of point_dict point_id = None \<Longrightarrow> catalog_field point_dict point_id field = Inr JNull"
  by (simp add: catalog_field_def py_get_def)

text \<open>
  C4. For a catalogue whose entries are dictionaries (as the one built from the response
  is), a raw value that is a string or \<open>None\<close> always yields a Reading: its value is the
  float when \<open>float\<close> accepts the string, the string itself when \<open>float\<close> raises
  \<open>ValueError\<close>, and \<open>None\<close> when the raw value is \<open>None\<close>.
\<close>

theorem reading_value_coercion:
  assumes "\<forall>p. map_of point_dict point_id = Some p \<longrightarrow> (\<exists>kvs. p = JObj kvs)"
    and "raw = JNull \<or> (\<exists>s. raw = JStr s)"
  shows "\<exists>r. format_measure_point rt point_id raw point_dict = Inr r
           \<and> rd_value r =
               (case raw of
                  JStr s \<Rightarrow> (case float_of_str rt s of Some x \<Rightarrow> JFloat x | None \<Rightarrow> JStr s)
                | _ \<Rightarrow> JNull)"
proof -
  from catalog_field_ok [OF assms(1)] obtain u n where
    "catalog_field point_dict point_id ''point_unit'' = Inr u"
    "catalog_field point_dict point_id ''point_name'' = Inr n"
    by blast
  then show ?thesis
    using assms(2)
    by (auto simp: format_measure_point_def coerce_value_str coerce_value_null)
qed

theorem reading_value_coercion_witness:
  "(\<exists>r. format_measure_point sample_builtins ''83022'' (JStr ''123.4'') [] = Inr r
        \<and> rd_value r = JFloat (1234, 1))
   \<and> (\<exists>r. format_measure_point sample_builtins ''83022'' (JStr ''N/A'') [] = Inr r
        \<and> rd_value r = JStr ''N/A'')
   \<and> (\<exists>r. format_measure_point sample_builtins ''83022'' JNull [] = Inr r
        \<and> rd_value r = JNull)"
proof -
  have wf: "\<forall>p. map_of ([] :: (string \<times> (int \<times> nat) json) list) ''83022'' = Some p
              \<longrightarrow> (\<exists>kvs. p = JObj kvs)"
    by simp
  have f1: "float_of_str sample_builtins ''123.4'' = Some (1234, 1)"
    unfolding sample_builtins_def by (simp, code_simp)
  have f2: "float_of_str sample_builtins ''N/A'' = None"
    unfolding sample_builtins_def by (simp, code_simp)
  from reading_value_coercion [OF wf, of "JStr ''123.4''" sample_builtins]
    reading_value_coercion [OF wf, of "JStr ''N/A''" sample_builtins]
    reading_value_coercion [OF wf, of JNull sample_builtins]
  show ?thesis by (simp add: f1 f2)
qed

text \<open>
  C10. When the catalogue has no entry for the numeric id, the catalogue lookups cannot
  fail: the Reading is produced exactly when the coercion of the raw value succeeds (always
  for a string or \<open>None\<close>), with unit \<open>None\<close> and name \<open>None\<close>; the only failure left is that
  of \<open>float\<close> on the raw value.
\<close>

theorem missing_catalog_entry:
  assumes "map_of point_dict point_id = None"
  shows "format_measure_point rt point_id raw point_dict =
           (case coerce_value rt raw of
              Inl e \<Rightarrow> Inl e
            | Inr v \<Rightarrow> Inr \<lparr>rd_id = point_id, rd_code = code_of point_id, rd_value = v,
                           rd_unit = JNull, rd_name = JNull\<rparr>)
         \<and> (raw = JNull \<or> (\<exists>s. raw = JStr s) \<longrightarrow>
              (\<exists>r. format_measure_point rt point_id raw point_dict = Inr r
                  \<and> rd_unit r = JNull \<and> rd_name r = JNull))"
  using assms
  by (auto simp: format_measure_point_def catalog_field_missing coerce_value_str
      coerce_value_null split: sum.splits)

theorem missing_catalog_entry_witness:
  "format_measure_point sample_builtins ''83099'' (JStr ''7'')
     [(''83022'', JObj [(''point_id'', JInt 83022), (''point_unit'', JStr ''Wh'')])]
   = Inr \<lparr>rd_id = ''83099'', rd_code = ''83099'', rd_value = JFloat (7, 0),
          rd_unit = JNull, rd_name = JNull\<rparr>"
proof -
  have m: "map_of [(''83022'', JObj [(''point_id'', JInt 83022), (''point_unit'', JStr ''Wh'')
             :: string \<times> (int \<times> nat) json])] ''83099'' = None"
    by simp
  have c: "coerce_value sample_builtins (JStr ''7'') = Inr (JFloat (7, 0))"
    unfolding coerce_value_str sample_builtins_def by (simp, code_simp)
  have k: "code_of ''83099'' = ''83099''"
    by code_simp
  from missing_catalog_entry [OF m, of sample_builtins "JStr ''7''"] show ?thesis
    by (simp add: c k)
qed

subsection \<open>The capability check\<close>

lemma py_get_Inr:
  "py_get d k dflt = Inr x \<longleftrightarrow>
     (\<exists>kvs. d = JObj kvs \<and> x = (case map_of kvs k of None \<Rightarrow> dflt | Some y \<Rightarrow> y))"
  by (auto simp: py_get_def split: json.splits)

lemma py_getitem_Inr:
  "py_getitem d k = Inr x \<longleftrightarrow> (\<exists>kvs. d = JObj kvs \<and> map_of kvs k = Some x)"
  by (auto simp: py_getitem_def split: json.splits option.splits)

lemma py_getitem0_obj:
  "py_getitem0 d = Inr (JObj dev) \<longleftrightarrow> (\<exists>rest. d = JList (JObj dev # rest))"
  by (auto simp: py_getitem0_def split: json.splits list.splits)

lemma verify_data_flag:
  assumes "data = JObj obj"
    and "map_of obj ''result_code'' = Some (JStr ''1'')"
    and "map_of obj ''result_data'' = Some (JObj rd)"
    and "map_of rd ''check_result'' = Some (JStr ''1'')"
    and "map_of rd ''dev_result_list'' = Some (JList (JObj dev # rest))"
    and "map_of dev ''check_result'' = Some v"
  shows "verify_data rt device_uuid set_type data =
           (if v = JStr ''1'' then Inr True
            else if v = JStr ''0'' then Inr False
            else Inl (check_failure rt device_uuid set_type data))"
  using assms by (simp add: verify_data_def py_get_def py_getitem_def py_getitem0_def)

lemma verify_data_Inr:
  assumes "verify_data rt device_uuid set_type data = Inr b"
  shows "\<exists>obj rd dev rest.
           data = JObj obj
         \<and> map_of obj ''result_code'' = Some (JStr ''1'')
         \<and> map_of obj ''result_data'' = Some (JObj rd)
         \<and> map_of rd ''check_result'' = Some (JStr ''1'')
         \<and> map_of rd ''dev_result_list'' = Some (JList (JObj dev # rest))
         \<and> map_of dev ''check_result'' = Some (JStr (if b then ''1'' else ''0''))"
proof -
  from assms obtain rc ok where
    rc: "py_get data ''result_code'' JNull = Inr rc"
    and gate: "(if rc = JStr ''1''
          then bind_e (py_getitem data ''result_data'') (\<lambda>rd.
               bind_e (py_getitem rd ''check_result'') (\<lambda>cr. Inr (cr = JStr ''1'')))
          else Inr False) = Inr ok"
    and rest: "(if ok then
         bind_e (py_getitem data ''result_data'') (\<lambda>rd.
         bind_e (py_getitem rd ''dev_result_list'') (\<lambda>dl.
         bind_e (py_getitem0 dl) (\<lambda>dev.
         bind_e (py_getitem dev ''check_result'') (\<lambda>supported.
           if supported = JStr ''1'' then Inr True
           else if supported = JStr ''0'' then Inr False
           else Inl (check_failure rt device_uuid set_type data)))))
       else Inl (check_failure rt device_uuid set_type data)) = Inr b"
    unfolding verify_data_def bind_e_eq_Inr by blast
  from rest have ok: ok by (cases ok) simp_all
  from rc obtain obj where obj: "data = JObj obj"
      "rc = (case map_of obj ''result_code'' of None \<Rightarrow> JNull | Some y \<Rightarrow> y)"
    unfolding py_get_Inr by blast
  from gate ok have rc1: "rc = JStr ''1''" by (cases "rc = JStr ''1''") simp_all
  with obj(2) have code: "map_of obj ''result_code'' = Some (JStr ''1'')"
    by (cases "map_of obj ''result_code''") simp_all
  from gate ok rc1 obtain rd0 cr where
    "py_getitem data ''result_data'' = Inr rd0" "py_getitem rd0 ''check_result'' = Inr cr"
    "cr = JStr ''1''"
    by (auto simp: bind_e_eq_Inr)
  then obtain rd where rd: "map_of obj ''result_data'' = Some (JObj rd)"
      "map_of rd ''check_result'' = Some (JStr ''1'')"
    using obj(1) by (auto simp: py_getitem_Inr)
  from rest ok obtain rd1 dl d1 supported where s:
    "py_getitem data ''result_data'' = Inr rd1" "py_getitem rd1 ''dev_result_list'' = Inr dl"
    "py_getitem0 dl = Inr d1" "py_getitem d1 ''check_result'' = Inr supported"
    "(if supported = JStr ''1'' then Inr True
      else if supported = JStr ''0'' then Inr False
      else Inl (check_failure rt device_uuid set_type data)) = Inr b"
    by (auto simp: bind_e_eq_Inr)
  from s(1) obj(1) rd(1) have rd1: "rd1 = JObj rd" by (simp add: py_getitem_Inr)
  from s(4) obtain dev where dev: "d1 = JObj dev" "map_of dev ''check_result'' = Some supported"
    by (auto simp: py_getitem_Inr)
  from s(3) dev(1) obtain rest where dl: "dl = JList (JObj dev # rest)"
    by (auto simp: py_getitem0_obj)
  from s(2) rd1 dl have list: "map_of rd ''dev_result_list'' = Some (JList (JObj dev # rest))"
    by (simp add: py_getitem_Inr)
  from s(5) have "supported = JStr (if b then ''1'' else ''0'')"
    by (auto split: if_splits)
  with obj(1) code rd list dev(2) show ?thesis by blast
qed

lemma check_outcome:
  assumes "auth \<lparr>uri = ''/openapi/platform/paramSettingCheck'',
                  params = [(''set_type'', JInt set_type), (''uuid'', JStr device_uuid)],
                  lang_kw = None\<rparr> = Inr res"
    and "status_error res = None"
    and "body res = Inr data"
  shows "snd (async_param_config_verification rt auth device_uuid set_type)
           = verify_data rt device_uuid set_type data"
  using assms by (simp add: async_param_config_verification_def Let_def raise_for_status_def)

text \<open>
  C9. When the transport answers the \<open>paramSettingCheck\<close> request with a good status and
  the decoded body \<open>data\<close>, call the device flag of \<open>data\<close> the value of \<open>check_result\<close> in the
  first entry of \<open>result_data.dev_result_list\<close>, read only when \<open>result_code\<close> and
  \<open>result_data.check_result\<close> are both the string \<open>"1"\<close>. The check returns \<open>True\<close> exactly
  when the device flag is the string \<open>"1"\<close>, returns \<open>False\<close> exactly when it is the string
  \<open>"0"\<close>, raises \<open>PySolarCloudException\<close> with the "Could not check support" message for
  every other device flag, and raises in every remaining case.
\<close>

theorem capability_check_tristate:
  fixes data :: "'f json"
  defines "device_flag \<equiv> \<lambda>v. \<exists>obj rd dev rest.
             data = JObj obj
           \<and> map_of obj ''result_code'' = Some (JStr ''1'')
           \<and> map_of obj ''result_data'' = Some (JObj rd)
           \<and> map_of rd ''check_result'' = Some (JStr ''1'')
           \<and> map_of rd ''dev_result_list'' = Some (JList (JObj dev # rest))
           \<and> map_of dev ''check_result'' = Some v"
  assumes "auth \<lparr>uri = ''/openapi/platform/paramSettingCheck'',
                  params = [(''set_type'', JInt set_type), (''uuid'', JStr device_uuid)],
                  lang_kw = None\<rparr> = Inr res"
    and "status_error res = None"
    and "body res = Inr data"
  shows "(snd (async_param_config_verification rt auth device_uuid set_type) = Inr True
            \<longleftrightarrow> device_flag (JStr ''1''))
       \<and> (snd (async_param_config_verification rt auth device_uuid set_type) = Inr False
            \<longleftrightarrow> device_flag (JStr ''0''))
       \<and> (\<forall>v. device_flag v \<and> v \<noteq> JStr ''1'' \<and> v \<noteq> JStr ''0'' \<longrightarrow>
             snd (async_param_config_verification rt auth device_uuid set_type)
               = Inl (check_failure rt device_uuid set_type data))
       \<and> (\<not> device_flag (JStr ''1'') \<and> \<not> device_flag (JStr ''0'') \<longrightarrow>
             (\<exists>e. snd (async_param_config_verification rt auth device_uuid set_type) = Inl e))"
proof -
  let ?out = "snd (async_param_config_verification rt auth device_uuid set_type)"
  have out: "?out = verify_data rt device_uuid set_type data"
    using assms(2-4) by (simp add: check_outcome [where auth = auth and res = res])
  have flag: "?out = (if v = JStr ''1'' then Inr True
                      else if v = JStr ''0'' then Inr False
                      else Inl (check_failure rt device_uuid set_type data))"
    if "device_flag v" for v
  proof -
    from that obtain obj rd dev rest where
      "data = JObj obj" "map_of obj ''result_code'' = Some (JStr ''1'')"
      "map_of obj ''result_data'' = Some (JObj rd)"
      "map_of rd ''check_result'' = Some (JStr ''1'')"
      "map_of rd ''dev_result_list'' = Some (JList (JObj dev # rest))"
      "map_of dev ''check_result'' = Some v"
      unfolding device_flag_def by blast
    then show ?thesis
      unfolding out by (rule verify_data_flag)
  qed
  have flag_of: "device_flag (JStr (if b then ''1'' else ''0''))" if "?out = Inr b" for b
    using verify_data_Inr [of rt device_uuid set_type data b] that
    unfolding out device_flag_def by blast
  have t: "?out = Inr True \<longleftrightarrow> device_flag (JStr ''1'')"
    using flag [of "JStr ''1''"] flag_of [of True] by auto
  have f: "?out = Inr False \<longleftrightarrow> device_flag (JStr ''0'')"
    using flag [of "JStr ''0''"] flag_of [of False] by auto
  have other: "\<forall>v. device_flag v \<and> v \<noteq> JStr ''1'' \<and> v \<noteq> JStr ''0'' \<longrightarrow>
                 ?out = Inl (check_failure rt device_uuid set_type data)"
  proof (intro allI impI)
    fix v
    assume "device_flag v \<and> v \<noteq> JStr ''1'' \<and> v \<noteq> JStr ''0''"
    then show "?out = Inl (check_failure rt device_uuid set_type data)"
      using flag [of v] by simp
  qed
  have none: "\<not> device_flag (JStr ''1'') \<and> \<not> device_flag (JStr ''0'') \<longrightarrow> (\<exists>e. ?out = Inl e)"
  proof (cases ?out)
    case (Inl e)
    then show ?thesis by simp
  next
    case (Inr b)
    then show ?thesis using t f by (cases b) simp_all
  qed
  from t f other none show ?thesis by blast
qed

theorem capability_check_tristate_witness:
  "snd (async_param_config_verification sample_builtins (sample_auth (check_body (JStr ''1'')))
          ''dev-1'' 2) = Inr True
   \<and> snd (async_param_config_verification sample_builtins (sample_auth (check_body (JStr ''0'')))
          ''dev-1'' 2) = Inr False
   \<and> snd (async_param_config_verification sample_builtins (sample_auth (check_body (JInt 1)))
          ''dev-1'' 2)
       = Inl (check_failure sample_builtins ''dev-1'' 2 (check_body (JInt 1)))"
proof -
  have a: "sample_auth (check_body v)
             \<lparr>uri = ''/openapi/platform/paramSettingCheck'',
              params = [(''set_type'', JInt 2), (''uuid'', JStr ''dev-1'')],
              lang_kw = None\<rparr> = Inr \<lparr>status_error = None, body = Inr (check_body v)\<rparr>"
    for v :: "(int \<times> nat) json"
    by (simp add: sample_auth_def)
  have b: "status_error \<lparr>status_error = None, body = Inr (check_body v)\<rparr> = None"
    for v :: "(int \<times> nat) json"
    by simp
  have c: "body \<lparr>status_error = None, body = Inr (check_body v)\<rparr> = Inr (check_body v)"
    for v :: "(int \<times> nat) json"
    by simp
  have s: "\<exists>obj rd dev rest.
             check_body v = JObj obj
           \<and> map_of obj ''result_code'' = Some (JStr ''1'')
           \<and> map_of obj ''result_data'' = Some (JObj rd)
           \<and> map_of rd ''check_result'' = Some (JStr ''1'')
           \<and> map_of rd ''dev_result_list'' = Some (JList (JObj dev # rest))
           \<and> map_of dev ''check_result'' = Some v" for v :: "(int \<times> nat) json"
    by (simp add: check_body_def)
  have n: "JInt 1 \<noteq> (JStr ''1'' :: (int \<times> nat) json)" "JInt 1 \<noteq> (JStr ''0'' :: (int \<times> nat) json)"
    by simp_all
  from capability_check_tristate [where data = "check_body (JStr ''1'')"
      and auth = "sample_auth (check_body (JStr ''1''))" and set_type = 2
      and device_uuid = "''dev-1''" and rt = sample_builtins,
      OF a [of "JStr ''1''"] b [of "JStr ''1''"] c [of "JStr ''1''"]] s [of "JStr ''1''"]
  have t: "snd (async_param_config_verification sample_builtins
             (sample_auth (check_body (JStr ''1''))) ''dev-1'' 2) = Inr True"
    by blast
  from capability_check_tristate [where data = "check_body (JStr ''0'')"
      and auth = "sample_auth (check_body (JStr ''0''))" and set_type = 2
      and device_uuid = "''dev-1''" and rt = sample_builtins,
      OF a [of "JStr ''0''"] b [of "JStr ''0''"] c [of "JStr ''0''"]] s [of "JStr ''0''"]
  have f: "snd (async_param_config_verification sample_builtins
             (sample_auth (check_body (JStr ''0''))) ''dev-1'' 2) = Inr False"
    by blast
  from capability_check_tristate [where data = "check_body (JInt 1)"
      and auth = "sample_auth (check_body (JInt 1))" and set_type = 2
      and device_uuid = "''dev-1''" and rt = sample_builtins,
      OF a [of "JInt 1"] b [of "JInt 1"] c [of "JInt 1"]] s [of "JInt 1"] n
  have o: "snd (async_param_config_verification sample_builtins
             (sample_auth (check_body (JInt 1))) ''dev-1'' 2)
           = Inl (check_failure sample_builtins ''dev-1'' 2 (check_body (JInt 1)))"
    by blast
  from t f o show ?thesis by blast
qed

subsection \<open>Readings of one plant record\<close>

lemma format_measure_point_Inr:
  assumes "format_measure_point rt point_id raw point_dict = Inr d"
  shows "rd_id d = point_id \<and> rd_code d = code_of point_id
       \<and> coerce_value rt raw = Inr (rd_value d)"
  using assms by (auto simp: format_measure_point_def bind_e_eq_Inr)

lemma names_not_isdigit: "list_all (\<lambda>n. \<not> isdigit n) (map snd measure_points)"
  by code_simp

lemma registered_name_not_isdigit:
  assumes "(i, n) \<in> set measure_points"
  shows "\<not> isdigit n"
proof -
  from assms have "n \<in> set (map snd measure_points)" by force
  with names_not_isdigit show ?thesis unfolding list_all_iff by blast
qed

lemma code_of_cases:
  "(map_of measure_points i = None \<and> code_of i = i)
   \<or> (i, code_of i) \<in> set measure_points"
  by (cases "map_of measure_points i") (auto simp: code_of_def dest: map_of_SomeD)

lemma code_of_unregistered:
  assumes "code_of i = c" and "c \<notin> snd ` set measure_points"
  shows "i = c"
proof -
  from code_of_cases [of i] assms(1) have "i = c \<or> (i, c) \<in> set measure_points" by auto
  moreover have "(i, c) \<notin> set measure_points" using assms(2) by force
  ultimately show ?thesis by blast
qed

lemma code_of_inj_isdigit:
  assumes "code_of i = code_of j" and "isdigit i" and "isdigit j"
  shows "i = j"
proof -
  consider "code_of i = i" "code_of j = j"
    | "code_of i = i" "(j, code_of j) \<in> set measure_points"
    | "(i, code_of i) \<in> set measure_points" "code_of j = j"
    | "(i, code_of i) \<in> set measure_points" "(j, code_of j) \<in> set measure_points"
    using code_of_cases [of i] code_of_cases [of j] by blast
  then show ?thesis
  proof cases
    case 1
    with assms(1) show ?thesis by simp
  next
    case 2
    from registered_name_not_isdigit [OF 2(2)] assms(1) 2(1) have "\<not> isdigit i" by simp
    with assms(2) show ?thesis by simp
  next
    case 3
    from registered_name_not_isdigit [OF 3(1)] assms(1) 3(2) have "\<not> isdigit j" by simp
    with assms(3) show ?thesis by simp
  next
    case 4
    have "(Inr i :: unit error + string) = id_of (code_of i)"
      by (rule id_of_registered [OF 4(1), symmetric])
    also have "\<dots> = id_of (code_of j)"
      by (simp only: assms(1))
    also have "\<dots> = Inr j"
      by (rule id_of_registered [OF 4(2)])
    finally show ?thesis by simp
  qed
qed

lemma plant_data_Inr:
  "plant_data rt point_dict items = Inr ds \<Longrightarrow>
   list_all2 (\<lambda>kv d. format_measure_point rt (tl (fst kv)) (snd kv) point_dict = Inr d)
     (filter (\<lambda>kv. is_point_key (fst kv)) items) ds"
proof (induction items arbitrary: ds)
  case Nil
  then show ?case by simp
next
  case (Cons kv items)
  obtain k v where kv: "kv = (k, v)" by (cases kv)
  show ?case
  proof (cases k)
    case Nil
    with Cons.prems kv show ?thesis by simp
  next
    case (Cons c ks)
    show ?thesis
    proof (cases "c = CHR ''p'' \<and> isdigit ks")
      case True
      with Cons.prems kv Cons obtain d ds' where
        d: "format_measure_point rt ks v point_dict = Inr d"
        and ds': "plant_data rt point_dict items = Inr ds'" and ds: "ds = d # ds'"
        by (auto split: sum.splits)
      from Cons.IH [OF ds'] d ds True kv Cons show ?thesis
        by (simp add: is_point_key_def)
    next
      case False
      with Cons.prems kv Cons have "plant_data rt point_dict items = Inr ds"
        by (auto split: if_splits)
      from Cons.IH [OF this] False kv Cons show ?thesis
        by (auto simp: is_point_key_def)
    qed
  qed
qed

lemma plant_data_ids:
  assumes "plant_data rt point_dict items = Inr ds"
  shows "map rd_id ds = map (\<lambda>kv. tl (fst kv)) (filter (\<lambda>kv. is_point_key (fst kv)) items)"
proof -
  have "list_all2 (\<lambda>kv d. tl (fst kv) = rd_id d)
          (filter (\<lambda>kv. is_point_key (fst kv)) items) ds"
    using plant_data_Inr [OF assms]
    by (rule list_all2_mono) (simp add: format_measure_point_Inr)
  then show ?thesis
    by (induction rule: list_all2_induct) simp_all
qed

lemma plant_data_member:
  assumes "plant_data rt point_dict items = Inr ds"
    and "(k, v) \<in> set items" and "is_point_key k"
  shows "\<exists>d \<in> set ds. format_measure_point rt (tl k) v point_dict = Inr d"
proof -
  have "(k, v) \<in> set (filter (\<lambda>kv. is_point_key (fst kv)) items)"
    using assms(2,3) by simp
  then obtain n where n: "n < length (filter (\<lambda>kv. is_point_key (fst kv)) items)"
      "filter (\<lambda>kv. is_point_key (fst kv)) items ! n = (k, v)"
    unfolding in_set_conv_nth by blast
  from plant_data_Inr [OF assms(1)] n
  have "n < length ds" "format_measure_point rt (tl k) v point_dict = Inr (ds ! n)"
    by (auto simp: list_all2_conv_all_nth)
  then show ?thesis by (auto simp: in_set_conv_nth)
qed

lemma point_keys_tl_distinct:
  assumes "distinct (map fst items)"
  shows "distinct (map (\<lambda>kv. tl (fst kv)) (filter (\<lambda>kv. is_point_key (fst kv)) items))"
proof -
  have inj: "inj_on (\<lambda>kv. tl (fst kv)) (set (filter (\<lambda>kv. is_point_key (fst kv)) items))"
  proof (rule inj_onI)
    fix a b
    assume a: "a \<in> set (filter (\<lambda>kv. is_point_key (fst kv)) items)"
      and b: "b \<in> set (filter (\<lambda>kv. is_point_key (fst kv)) items)"
      and eq: "tl (fst a) = tl (fst b)"
    from a b have "fst a = CHR ''p'' # tl (fst a)" "fst b = CHR ''p'' # tl (fst b)"
      by (auto simp: is_point_key_def split: list.splits)
    with eq have "fst a = fst b" by simp
    moreover from a b have "a \<in> set items" "b \<in> set items" by simp_all
    ultimately show "a = b"
      using assms by (metis eq_key_imp_eq_value prod.collapse)
  qed
  have "distinct (filter (\<lambda>kv. is_point_key (fst kv)) items)"
    using assms by (simp add: distinct_map)
  with inj show ?thesis by (simp add: distinct_map)
qed

lemma plant_data_codes_distinct:
  assumes "plant_data rt point_dict items = Inr ds" and "distinct (map fst items)"
  shows "distinct (map rd_code ds)"
proof -
  have ids: "distinct (map rd_id ds)"
    using plant_data_ids [OF assms(1)] point_keys_tl_distinct [OF assms(2)] by simp
  have dig: "\<forall>d \<in> set ds. isdigit (rd_id d) \<and> rd_code d = code_of (rd_id d)"
  proof
    fix d assume "d \<in> set ds"
    then obtain n where n: "n < length ds" "ds ! n = d" by (auto simp: in_set_conv_nth)
    let ?kv = "filter (\<lambda>kv. is_point_key (fst kv)) items ! n"
    from plant_data_Inr [OF assms(1)] n
    have len: "n < length (filter (\<lambda>kv. is_point_key (fst kv)) items)"
      and f: "format_measure_point rt (tl (fst ?kv)) (snd ?kv) point_dict = Inr d"
      by (auto simp: list_all2_conv_all_nth)
    from len have "?kv \<in> set (filter (\<lambda>kv. is_point_key (fst kv)) items)"
      by (rule nth_mem)
    then have "is_point_key (fst ?kv)" by simp
    then have "isdigit (tl (fst ?kv))"
      by (auto simp: is_point_key_def split: list.splits)
    with format_measure_point_Inr [OF f] show "isdigit (rd_id d) \<and> rd_code d = code_of (rd_id d)"
      by simp
  qed
  have "inj_on rd_code (set ds)"
  proof (rule inj_onI)
    fix a b assume ab: "a \<in> set ds" "b \<in> set ds" "rd_code a = rd_code b"
    with dig have "rd_id a = rd_id b"
      by (auto intro: code_of_inj_isdigit)
    with ids ab(1,2) show "a = b"
      by (meson distinct_map inj_onD)
  qed
  moreover from ids have "distinct ds" by (simp add: distinct_map)
  ultimately show ?thesis by (simp add: distinct_map)
qed

text \<open>Without a collision the dictionary comprehension of line 78 keeps every reading.\<close>

lemma data_as_dict_no_collision:
  assumes "plant_data rt point_dict items = Inr ds" and "distinct (map fst items)"
  shows "dict_of (map (\<lambda>d. (rd_code d, d)) ds) = map (\<lambda>d. (rd_code d, d)) ds"
  using plant_data_codes_distinct [OF assms]
  by (intro dict_of_distinct) (simp add: comp_def)

lemma resolve_names_digit_position:
  "(resolve_names mps :: 'f error + string list) = Inr ms \<Longrightarrow>
   length ms = length mps \<and> (\<forall>i < length mps. isdigit (mps ! i) \<longrightarrow> ms ! i = mps ! i)"
proof (induction mps arbitrary: ms)
  case Nil
  then show ?case by simp
next
  case (Cons m mps)
  from Cons.prems obtain i is' where
    i: "(if isdigit m then Inr m else (id_of m :: 'f error + string)) = Inr i"
    and is': "(resolve_names mps :: 'f error + string list) = Inr is'"
    and ms: "ms = i # is'"
    by (auto split: sum.splits)
  from Cons.IH [OF is'] have ih: "length is' = length mps"
    "\<forall>j < length mps. isdigit (mps ! j) \<longrightarrow> is' ! j = mps ! j"
    by simp_all
  show ?case
  proof (intro conjI allI impI)
    show "length ms = length (m # mps)" using ms ih(1) by simp
  next
    fix j assume j: "j < length (m # mps)" "isdigit ((m # mps) ! j)"
    show "ms ! j = (m # mps) ! j"
    proof (cases j)
      case 0
      with j(2) i ms show ?thesis by simp
    next
      case (Suc j')
      with j ih(2) ms show ?thesis by simp
    qed
  qed
qed

lemma plant_reading_keyed:
  assumes "plant_data rt point_dict items = Inr ds"
    and "distinct (map fst items)"
    and "(CHR ''p'' # m, v) \<in> set items"
    and "isdigit m"
  shows "\<exists>d. map_of (dict_of (map (\<lambda>d. (rd_code d, d)) ds)) (code_of m) = Some d
           \<and> rd_id d = m \<and> rd_code d = code_of m \<and> coerce_value rt v = Inr (rd_value d)"
proof -
  have key: "is_point_key (CHR ''p'' # m)"
    using assms(4) by (simp add: is_point_key_def)
  from plant_data_member [OF assms(1,3) key] obtain d where
    d: "d \<in> set ds" "format_measure_point rt m v point_dict = Inr d"
    by auto
  from format_measure_point_Inr [OF d(2)] have props:
    "rd_id d = m" "rd_code d = code_of m" "coerce_value rt v = Inr (rd_value d)"
    by simp_all
  have "distinct (map fst (map (\<lambda>d. (rd_code d, d)) ds))"
    using plant_data_codes_distinct [OF assms(1,2)] by (simp add: comp_def)
  moreover have "(code_of m, d) \<in> set (map (\<lambda>d. (rd_code d, d)) ds)"
    using d(1) props(2) by force
  ultimately have "map_of (map (\<lambda>d. (rd_code d, d)) ds) (code_of m) = Some d"
    by (rule map_of_is_SomeI)
  then show ?thesis
    using props by (simp add: data_as_dict_no_collision [OF assms(1,2)])
qed

lemma plant_reading_absent:
  assumes "plant_data rt point_dict items = Inr ds"
    and "CHR ''p'' # m \<notin> fst ` set items"
    and "isdigit m"
  shows "map_of (dict_of (map (\<lambda>d. (rd_code d, d)) ds)) (code_of m) = None"
proof -
  have "code_of m \<notin> rd_code ` set ds"
  proof
    assume "code_of m \<in> rd_code ` set ds"
    then obtain d where d: "d \<in> set ds" "rd_code d = code_of m" by auto
    then obtain n where n: "n < length ds" "ds ! n = d" by (auto simp: in_set_conv_nth)
    let ?kv = "filter (\<lambda>kv. is_point_key (fst kv)) items ! n"
    from plant_data_Inr [OF assms(1)] n
    have len: "n < length (filter (\<lambda>kv. is_point_key (fst kv)) items)"
      and f: "format_measure_point rt (tl (fst ?kv)) (snd ?kv) point_dict = Inr d"
      by (auto simp: list_all2_conv_all_nth)
    from len have mem: "?kv \<in> set (filter (\<lambda>kv. is_point_key (fst kv)) items)"
      by (rule nth_mem)
    then have pk: "is_point_key (fst ?kv)" and it: "?kv \<in> set items" by simp_all
    from pk have shape: "fst ?kv = CHR ''p'' # tl (fst ?kv)" and dig: "isdigit (tl (fst ?kv))"
      by (auto simp: is_point_key_def split: list.splits)
    from format_measure_point_Inr [OF f] d(2) have "code_of (tl (fst ?kv)) = code_of m"
      by simp
    from code_of_inj_isdigit [OF this dig assms(3)] shape have "fst ?kv = CHR ''p'' # m"
      by simp
    with it have "CHR ''p'' # m \<in> fst ` set items" by force
    with assms(2) show False by simp
  qed
  moreover have "fst ` set (map (\<lambda>d. (rd_code d, d)) ds) = rd_code ` set ds"
    by (simp add: image_image)
  ultimately have "code_of m \<notin> fst ` set (dict_of (map (\<lambda>d. (rd_code d, d)) ds))"
    unfolding keys_dict_of by simp
  then show ?thesis by (simp add: map_of_eq_None_iff)
qed

lemma format_measure_point_ok:
  assumes "\<forall>p. map_of point_dict point_id = Some p \<longrightarrow> (\<exists>kvs. p = JObj kvs)"
    and "raw = JNull \<or> (\<exists>s. raw = JStr s)"
  shows "\<exists>d. format_measure_point rt point_id raw point_dict = Inr d"
proof -
  from catalog_field_ok [OF assms(1)] obtain u n where
    "catalog_field point_dict point_id ''point_unit'' = Inr u"
    "catalog_field point_dict point_id ''point_name'' = Inr n"
    by blast
  moreover from assms(2) obtain c where "coerce_value rt raw = Inr c"
    by (auto simp: coerce_value_str coerce_value_null)
  ultimately show ?thesis
    by (simp add: format_measure_point_def)
qed

lemma plant_data_ok:
  assumes "\<forall>i p. map_of point_dict i = Some p \<longrightarrow> (\<exists>kvs. p = JObj kvs)"
    and "\<forall>kv \<in> set items. fst kv \<noteq> []
           \<and> (is_point_key (fst kv) \<longrightarrow> snd kv = JNull \<or> (\<exists>s. snd kv = JStr s))"
  shows "\<exists>ds. plant_data rt point_dict items = Inr ds"
  using assms(2)
proof (induction items)
  case Nil
  then show ?case by simp
next
  case (Cons kv items)
  then obtain ds where ds: "plant_data rt point_dict items = Inr ds" by auto
  obtain k v where kv: "kv = (k, v)" by (cases kv)
  from Cons.prems kv obtain c ks where k: "k = c # ks" by (cases k) auto
  show ?case
  proof (cases "c = CHR ''p'' \<and> isdigit ks")
    case True
    with Cons.prems kv k have "v = JNull \<or> (\<exists>s. v = JStr s)"
      by (simp add: is_point_key_def)
    with assms(1) obtain d where "format_measure_point rt ks v point_dict = Inr d"
      using format_measure_point_ok [of point_dict ks v rt] by blast
    with True ds kv k show ?thesis by simp
  next
    case False
    with ds kv k show ?thesis by auto
  qed
qed

lemma point_pairs_ok:
  assumes "\<forall>p \<in> set points. \<exists>kvs i. p = JObj kvs \<and> map_of kvs ''point_id'' = Some i"
  shows "\<exists>pairs. point_pairs rt points = Inr pairs
           \<and> (\<forall>kp \<in> set pairs. \<exists>kvs. snd kp = JObj kvs)"
  using assms
proof (induction points)
  case Nil
  then show ?case by simp
next
  case (Cons p points)
  then obtain pairs where pairs: "point_pairs rt points = Inr pairs"
      "\<forall>kp \<in> set pairs. \<exists>kvs. snd kp = JObj kvs"
    by auto
  from Cons.prems obtain kvs i where p: "p = JObj kvs" "map_of kvs ''point_id'' = Some i"
    by auto
  then have "py_getitem p ''point_id'' = Inr i" by (simp add: py_getitem_def)
  with pairs p(1) show ?case by simp
qed

lemma catalog_entries_objects:
  assumes "\<forall>kp \<in> set pairs. \<exists>kvs. snd kp = JObj kvs"
  shows "\<forall>i p. map_of (dict_of pairs) i = Some p \<longrightarrow> (\<exists>kvs. p = JObj kvs)"
proof (intro allI impI)
  fix i p assume "map_of (dict_of pairs) i = Some p"
  then have "map_of (rev pairs) i = Some p" by (simp add: map_of_dict_of)
  then have "(i, p) \<in> set pairs" by (auto dest: map_of_SomeD)
  with assms show "\<exists>kvs. p = JObj kvs" by force
qed

subsection \<open>Reshaping a well-formed body\<close>

lemma reshape_body:
  assumes "''error'' \<notin> fst ` set obj"
    and "map_of obj ''result_data'' = Some (JObj rd)"
    and "map_of rd ''point_dict'' = Some (JList points)"
    and "point_pairs rt points = Inr pairs"
    and "map_of rd ''device_point_list'' = Some (JList plants)"
  shows "reshape rt (JObj obj) = plants_loop rt (dict_of pairs) plants []"
  using assms by (simp add: reshape_def py_contains_def py_getitem_def py_iter_def)

lemma plants_loop_step:
  assumes "plant_data rt point_dict items = Inr ds"
    and "map_of items ''ps_id'' = Some i"
  shows "plants_loop rt point_dict (JObj items # rest) plants
           = plants_loop rt point_dict rest
               (AList.update (py_str rt i) (dict_of (map (\<lambda>d. (rd_code d, d)) ds)) plants)"
  using assms by (simp add: py_items_def py_getitem_def Let_def)

lemma daily_yield_registered: "(''83022'', ''daily_yield'') \<in> set measure_points"
  by (simp add: measure_points_def)

lemma isdigit_83022: "isdigit ''83022''"
  by (simp add: isdigit_def isdigit_char_def)

text \<open>
  C3, amended. Take a response without the key \<open>error\<close> whose catalogue entries are
  dictionaries with a \<open>point_id\<close>, and whose \<open>device_point_list\<close> holds two plant records
  with non-empty keys and with point fields that are strings or \<open>None\<close>: the first with
  \<open>ps_id\<close> \<open>"P1"\<close> and \<open>p83022 = "123.4"\<close>, the second with \<open>ps_id\<close> \<open>"P2"\<close> and no field
  \<open>p83022\<close>. If \<open>float\<close> reads \<open>"123.4"\<close> as \<open>x\<close>, the call returns a result that maps \<open>"P1"\<close> to
  an inner map with a \<open>daily_yield\<close> reading of value \<open>x\<close>, and \<open>"P2"\<close> to an inner map that
  has no \<open>daily_yield\<close> entry.
\<close>

theorem two_plants_daily_yield:
  assumes "fst (async_get_realtime_data rt auth lang plant_id mps) = [req]"
    and "auth req = Inr res"
    and "body res = Inr (JObj obj)"
    and "''error'' \<notin> fst ` set obj"
    and "map_of obj ''result_data'' = Some (JObj rd)"
    and "map_of rd ''point_dict'' = Some (JList points)"
    and "\<forall>p \<in> set points. \<exists>kvs i. p = JObj kvs \<and> map_of kvs ''point_id'' = Some i"
    and "map_of rd ''device_point_list'' = Some (JList [JObj p1, JObj p2])"
    and "distinct (map fst p1)" and "distinct (map fst p2)"
    and "\<forall>kv \<in> set (p1 @ p2). fst kv \<noteq> []
           \<and> (is_point_key (fst kv) \<longrightarrow> snd kv = JNull \<or> (\<exists>s. snd kv = JStr s))"
    and "map_of p1 ''ps_id'' = Some (JStr ''P1'')"
    and "map_of p2 ''ps_id'' = Some (JStr ''P2'')"
    and "map_of p1 ''p83022'' = Some (JStr ''123.4'')"
    and "''p83022'' \<notin> fst ` set p2"
    and "float_of_str rt ''123.4'' = Some x"
  shows "\<exists>inner1 inner2 r.
           snd (async_get_realtime_data rt auth lang plant_id mps)
             = Inr [(''P1'', inner1), (''P2'', inner2)]
         \<and> map_of inner1 ''daily_yield'' = Some r
         \<and> rd_id r = ''83022'' \<and> rd_code r = ''daily_yield'' \<and> rd_value r = JFloat x
         \<and> map_of inner2 ''daily_yield'' = None"
proof -
  from issued_request_inv [OF assms(1)] obtain ms where
    ms: "(resolve_points mps :: 'a error + string list) = Inr ms"
      "req = realtime_request lang (ps_of plant_id) ms"
    by blast
  have out: "snd (async_get_realtime_data rt auth lang plant_id mps) = reshape rt (JObj obj)"
    using assms(2,3) ms by (simp add: issued_request [OF ms(1)])
  from point_pairs_ok [OF assms(7), of rt] obtain pairs where
    pairs: "point_pairs rt points = Inr pairs" "\<forall>kp \<in> set pairs. \<exists>kvs. snd kp = JObj kvs"
    by blast
  let ?pd = "dict_of pairs"
  note wf = catalog_entries_objects [OF pairs(2)]
  from assms(11) have ok1: "\<forall>kv \<in> set p1. fst kv \<noteq> []
      \<and> (is_point_key (fst kv) \<longrightarrow> snd kv = JNull \<or> (\<exists>s. snd kv = JStr s))"
    and ok2: "\<forall>kv \<in> set p2. fst kv \<noteq> []
      \<and> (is_point_key (fst kv) \<longrightarrow> snd kv = JNull \<or> (\<exists>s. snd kv = JStr s))"
    by simp_all
  from plant_data_ok [OF wf ok1, of rt] obtain ds1 where
    ds1: "plant_data rt ?pd p1 = Inr ds1" by blast
  from plant_data_ok [OF wf ok2, of rt] obtain ds2 where
    ds2: "plant_data rt ?pd p2 = Inr ds2" by blast
  let ?inner1 = "dict_of (map (\<lambda>d. (rd_code d, d)) ds1)"
  let ?inner2 = "dict_of (map (\<lambda>d. (rd_code d, d)) ds2)"
  have "reshape rt (JObj obj) = plants_loop rt ?pd [JObj p1, JObj p2] []"
    by (rule reshape_body [OF assms(4,5,6) pairs(1) assms(8)])
  also have "\<dots> = plants_loop rt ?pd [JObj p2]
                        (AList.update (py_str rt (JStr ''P1'')) ?inner1 [])"
    by (rule plants_loop_step [OF ds1 assms(12)])
  also have "\<dots> = plants_loop rt ?pd []
                        (AList.update (py_str rt (JStr ''P2'')) ?inner2
                          (AList.update (py_str rt (JStr ''P1'')) ?inner1 []))"
    by (rule plants_loop_step [OF ds2 assms(13)])
  also have "\<dots> = Inr [(''P1'', ?inner1), (''P2'', ?inner2)]"
    by (simp add: py_str_def)
  finally have result: "snd (async_get_realtime_data rt auth lang plant_id mps)
      = Inr [(''P1'', ?inner1), (''P2'', ?inner2)]"
    using out by simp
  have code: "code_of ''83022'' = ''daily_yield''"
    by (rule code_of_registered [OF daily_yield_registered])
  have "(CHR ''p'' # ''83022'', JStr ''123.4'') \<in> set p1"
    using assms(14) by (auto dest: map_of_SomeD)
  from plant_reading_keyed [OF ds1 assms(9) this isdigit_83022] obtain r where
    r: "map_of ?inner1 ''daily_yield'' = Some r" "rd_id r = ''83022''"
      "rd_code r = ''daily_yield''" "coerce_value rt (JStr ''123.4'') = Inr (rd_value r)"
    unfolding code by blast
  from r(4) assms(16) have val: "rd_value r = JFloat x"
    by (simp add: coerce_value_str)
  have "CHR ''p'' # ''83022'' \<notin> fst ` set p2"
    using assms(15) by simp
  from plant_reading_absent [OF ds2 this isdigit_83022]
  have none: "map_of ?inner2 ''daily_yield'' = None"
    unfolding code .
  from result r(1,2,3) val none show ?thesis by blast
qed

lemma sample_auth_outcome:
  "(resolve_points mps :: 'f error + string list) = Inr ms \<Longrightarrow>
   snd (async_get_realtime_data (rt :: 'f builtins) (sample_auth b) lang plant_id mps)
     = reshape rt b"
  by (simp add: issued_request sample_auth_def)

text \<open>
  C3, as stated, fails: a plant record that lacks the field \<open>p83022\<close> gets an inner map
  without a \<open>daily_yield\<close> entry, not an entry with value \<open>None\<close>.
\<close>

theorem absent_field_gives_no_entry:
  "snd (async_get_realtime_data sample_builtins
          (sample_auth (realtime_body
             [JObj [(''point_id'', JInt 83022), (''point_unit'', JStr ''Wh''),
                    (''point_name'', JStr ''Daily Yield'')]]
             [JObj [(''ps_id'', JStr ''P1''), (''p83022'', JStr ''123.4'')],
              JObj [(''ps_id'', JStr ''P2'')]]))
          ''_en_US'' (Many [''P1'', ''P2'']) (Some [''daily_yield'']))
   = Inr [(''P1'', [(''daily_yield'',
                     \<lparr>rd_id = ''83022'', rd_code = ''daily_yield'', rd_value = JFloat (1234, 1),
                      rd_unit = JStr ''Wh'', rd_name = JStr ''Daily Yield''\<rparr>)]),
          (''P2'', [])]"
proof -
  let ?entry = "JObj [(''point_id'', JInt 83022), (''point_unit'', JStr ''Wh''),
                      (''point_name'', JStr ''Daily Yield'')] :: (int \<times> nat) json"
  let ?p1 = "[(''ps_id'', JStr ''P1''), (''p83022'', JStr ''123.4'')]
               :: (string \<times> (int \<times> nat) json) list"
  let ?p2 = "[(''ps_id'', JStr ''P2'')] :: (string \<times> (int \<times> nat) json) list"
  let ?body = "realtime_body [?entry] [JObj ?p1, JObj ?p2]"
  let ?pd = "[(''83022'', ?entry)]"
  let ?r = "\<lparr>rd_id = ''83022'', rd_code = ''daily_yield'', rd_value = JFloat (1234, 1),
             rd_unit = JStr ''Wh'', rd_name = JStr ''Daily Yield''\<rparr> :: (int \<times> nat) reading"
  have nd: "\<not> isdigit ''daily_yield''"
    by (simp add: isdigit_def isdigit_char_def)
  have r: "(resolve_points (Some [''daily_yield'']) :: (int \<times> nat) error + string list)
             = Inr [''83022'']"
    using nd id_of_registered [OF daily_yield_registered, where ?'a = "int \<times> nat"]
    by (simp add: resolve_points_def)
  have out: "snd (async_get_realtime_data sample_builtins (sample_auth ?body) ''_en_US''
               (Many [''P1'', ''P2'']) (Some [''daily_yield''])) = reshape sample_builtins ?body"
    by (rule sample_auth_outcome [OF r])
  have str: "str_int 83022 = ''83022''"
    by (simp add: str_int_def str_nat.simps)
  have pairs: "point_pairs sample_builtins [?entry] = Inr ?pd"
    by (simp add: py_getitem_def py_str_def str)
  have pd: "dict_of ?pd = ?pd"
    by (simp add: dict_of_def)
  have fl: "float_of_str sample_builtins ''123.4'' = Some (1234, 1)"
    unfolding sample_builtins_def by (simp, code_simp)
  have code: "code_of ''83022'' = ''daily_yield''"
    by (rule code_of_registered [OF daily_yield_registered])
  have f: "format_measure_point sample_builtins ''83022'' (JStr ''123.4'') ?pd = Inr ?r"
    by (simp add: format_measure_point_def coerce_value_str fl catalog_field_def py_get_def code)
  have ns: "\<not> isdigit ''s_id''"
    by (simp add: isdigit_def isdigit_char_def)
  have d1: "plant_data sample_builtins ?pd ?p1 = Inr [?r]"
    using f ns isdigit_83022 by simp
  have d2: "plant_data sample_builtins ?pd ?p2 = Inr []"
    using ns by simp
  have "reshape sample_builtins ?body
          = plants_loop sample_builtins (dict_of ?pd) [JObj ?p1, JObj ?p2] []"
    unfolding realtime_body_def
    by (rule reshape_body [OF _ _ _ pairs,
          where rd = "[(''point_dict'', JList [?entry]),
                       (''device_point_list'', JList [JObj ?p1, JObj ?p2])]"
            and plants = "[JObj ?p1, JObj ?p2]"])
      simp_all
  also have "\<dots> = Inr [(''P1'', [(''daily_yield'', ?r)]), (''P2'', [])]"
    unfolding pd using d1 d2
    by (simp add: py_items_def py_getitem_def py_str_def dict_of_def)
  finally show ?thesis
    using out by simp
qed

theorem two_plants_daily_yield_witness:
  "\<exists>inner1 inner2 r.
     snd (async_get_realtime_data sample_builtins
            (sample_auth (realtime_body
               [JObj [(''point_id'', JInt 83022), (''point_unit'', JStr ''Wh''),
                      (''point_name'', JStr ''Daily Yield'')]]
               [JObj [(''ps_id'', JStr ''P1''), (''p83022'', JStr ''123.4'')],
                JObj [(''ps_id'', JStr ''P2'')]]))
            ''_en_US'' (Many [''P1'', ''P2'']) None)
       = Inr [(''P1'', inner1), (''P2'', inner2)]
     \<and> map_of inner1 ''daily_yield'' = Some r
     \<and> rd_id r = ''83022'' \<and> rd_code r = ''daily_yield'' \<and> rd_value r = JFloat (1234, 1)
     \<and> map_of inner2 ''daily_yield'' = None"
proof -
  let ?entry = "JObj [(''point_id'', JInt 83022), (''point_unit'', JStr ''Wh''),
                      (''point_name'', JStr ''Daily Yield'')] :: (int \<times> nat) json"
  let ?p1 = "[(''ps_id'', JStr ''P1''), (''p83022'', JStr ''123.4'')]
               :: (string \<times> (int \<times> nat) json) list"
  let ?p2 = "[(''ps_id'', JStr ''P2'')] :: (string \<times> (int \<times> nat) json) list"
  let ?body = "realtime_body [?entry] [JObj ?p1, JObj ?p2]"
  let ?req = "realtime_request ''_en_US'' (ps_of (Many [''P1'', ''P2'']))
                (map fst measure_points) :: (int \<times> nat) request"
  have r: "(resolve_points None :: (int \<times> nat) error + string list)
             = Inr (map fst measure_points)"
    by (simp add: resolve_points_def)
  have a1: "fst (async_get_realtime_data sample_builtins (sample_auth ?body) ''_en_US''
              (Many [''P1'', ''P2'']) None) = [?req]"
    by (simp add: issued_request [OF r])
  have a2: "sample_auth ?body ?req = Inr \<lparr>status_error = None, body = Inr ?body\<rparr>"
    by (simp add: sample_auth_def)
  have a3: "body \<lparr>status_error = None, body = Inr ?body\<rparr>
              = Inr (JObj [(''req_serial_num'', JStr ''x''), (''result_code'', JStr ''1''),
                  (''result_data'',
                   JObj [(''point_dict'', JList [?entry]),
                         (''device_point_list'', JList [JObj ?p1, JObj ?p2])])])"
    by (simp add: realtime_body_def)
  have ns: "\<not> isdigit ''s_id''"
    by (simp add: isdigit_def isdigit_char_def)
  have fl: "float_of_str sample_builtins ''123.4'' = Some (1234, 1)"
    unfolding sample_builtins_def by (simp, code_simp)
  show ?thesis
    by (rule two_plants_daily_yield [OF a1 a2 a3 _ _ _ _ _ _ _ _ _ _ _ _ fl,
          where rd = "[(''point_dict'', JList [?entry]),
                       (''device_point_list'', JList [JObj ?p1, JObj ?p2])]"
            and points = "[?entry]" and ?p1.0 = ?p1 and ?p2.0 = ?p2])
      (simp_all add: is_point_key_def ns)
qed

subsection \<open>The plant loop and the result\<close>

lemma set_update_subset: "set (AList.update k v al) \<subseteq> insert (k, v) (set al)"
  by (induction al) auto

lemma set_fold_update_subset:
  "set (fold (\<lambda>kv d. AList.update (fst kv) (snd kv) d) kvs d) \<subseteq> set d \<union> set kvs"
proof (induction kvs arbitrary: d)
  case Nil
  then show ?case by simp
next
  case (Cons kv kvs)
  have "set (fold (\<lambda>kv d. AList.update (fst kv) (snd kv) d) kvs
               (AList.update (fst kv) (snd kv) d))
          \<subseteq> set (AList.update (fst kv) (snd kv) d) \<union> set kvs"
    by (rule Cons.IH)
  moreover have "set (AList.update (fst kv) (snd kv) d) \<subseteq> insert kv (set d)"
    using set_update_subset [of "fst kv" "snd kv" d] by simp
  ultimately show ?case by auto
qed

lemma set_dict_of_subset: "set (dict_of kvs) \<subseteq> set kvs"
  unfolding dict_of_def using set_fold_update_subset [of kvs "[]"] by simp

lemma plant_data_codes:
  assumes "plant_data rt point_dict items = Inr ds" and "d \<in> set ds"
  shows "rd_code d = code_of (rd_id d)"
proof -
  from assms(2) obtain n where n: "n < length ds" "ds ! n = d"
    by (auto simp: in_set_conv_nth)
  let ?kv = "filter (\<lambda>kv. is_point_key (fst kv)) items ! n"
  from plant_data_Inr [OF assms(1)] n
  have "format_measure_point rt (tl (fst ?kv)) (snd ?kv) point_dict = Inr d"
    by (auto simp: list_all2_conv_all_nth)
  from format_measure_point_Inr [OF this] show ?thesis by simp
qed

lemma plants_loop_Cons_Inr:
  assumes "plants_loop rt point_dict (plant # rest) plants = Inr result"
  shows "\<exists>items ds i. plant = JObj items \<and> plant_data rt point_dict items = Inr ds
           \<and> map_of items ''ps_id'' = Some i
           \<and> plants_loop rt point_dict rest
                (AList.update (py_str rt i) (dict_of (map (\<lambda>d. (rd_code d, d)) ds)) plants)
               = Inr result"
proof -
  from assms obtain items where items: "py_items plant = Inr items"
    by (cases "py_items plant") simp_all
  then have plant: "plant = JObj items"
    by (auto simp: py_items_def split: json.splits)
  from assms items obtain ds where ds: "plant_data rt point_dict items = Inr ds"
    by (cases "plant_data rt point_dict items") simp_all
  from assms items ds obtain i where i: "py_getitem plant ''ps_id'' = Inr i"
    by (cases "py_getitem plant ''ps_id''") (simp_all add: Let_def)
  with plant have "map_of items ''ps_id'' = Some i"
    by (simp add: py_getitem_Inr)
  moreover from assms items ds i have
    "plants_loop rt point_dict rest
       (AList.update (py_str rt i) (dict_of (map (\<lambda>d. (rd_code d, d)) ds)) plants)
      = Inr result"
    by (simp add: Let_def)
  ultimately show ?thesis using plant ds by blast
qed

lemma plants_loop_append_Inr:
  "plants_loop rt point_dict (xs @ ys) plants = Inr result \<Longrightarrow>
   \<exists>mid. plants_loop rt point_dict xs plants = Inr mid
      \<and> plants_loop rt point_dict ys mid = Inr result"
proof (induction xs arbitrary: plants)
  case Nil
  then show ?case by simp
next
  case (Cons x xs)
  from Cons.prems have "plants_loop rt point_dict (x # (xs @ ys)) plants = Inr result"
    by simp
  from plants_loop_Cons_Inr [OF this] obtain items ds i where
    x: "x = JObj items" "plant_data rt point_dict items = Inr ds"
      "map_of items ''ps_id'' = Some i"
    and rest: "plants_loop rt point_dict (xs @ ys)
        (AList.update (py_str rt i) (dict_of (map (\<lambda>d. (rd_code d, d)) ds)) plants)
       = Inr result"
    by blast
  from Cons.IH [OF rest] obtain mid where
    mid: "plants_loop rt point_dict xs
        (AList.update (py_str rt i) (dict_of (map (\<lambda>d. (rd_code d, d)) ds)) plants)
       = Inr mid"
      "plants_loop rt point_dict ys mid = Inr result"
    by blast
  have "plants_loop rt point_dict (x # xs) plants = Inr mid"
    unfolding x(1) plants_loop_step [OF x(2,3)] by (rule mid(1))
  with mid(2) show ?case by blast
qed

text \<open>An entry of the dictionary \<open>plants\<close> survives the records whose \<open>ps_id\<close> gives another
  key.\<close>

lemma plants_loop_keeps:
  "plants_loop rt point_dict rest plants = Inr result \<Longrightarrow>
   map_of plants key = Some inner \<Longrightarrow>
   (\<forall>items j. JObj items \<in> set rest \<and> map_of items ''ps_id'' = Some j \<longrightarrow> py_str rt j \<noteq> key) \<Longrightarrow>
   map_of result key = Some inner"
proof (induction rest arbitrary: plants)
  case Nil
  then show ?case by simp
next
  case (Cons plant rest)
  from plants_loop_Cons_Inr [OF Cons.prems(1)] obtain items ds i where
    p: "plant = JObj items" "plant_data rt point_dict items = Inr ds"
      "map_of items ''ps_id'' = Some i"
    and rest: "plants_loop rt point_dict rest
        (AList.update (py_str rt i) (dict_of (map (\<lambda>d. (rd_code d, d)) ds)) plants)
       = Inr result"
    by blast
  have "JObj items \<in> set (plant # rest)" using p(1) by simp
  with Cons.prems(3) p(3) have ne: "py_str rt i \<noteq> key" by blast
  have kept: "map_of (AList.update (py_str rt i) (dict_of (map (\<lambda>d. (rd_code d, d)) ds)) plants)
      key = Some inner"
    using ne Cons.prems(2) by (simp add: AList.update_conv')
  have later: "\<forall>items j. JObj items \<in> set rest \<and> map_of items ''ps_id'' = Some j
      \<longrightarrow> py_str rt j \<noteq> key"
    using Cons.prems(3) by auto
  from Cons.IH [OF rest kept later] show ?case .
qed

text \<open>Every entry of the result comes from the accumulator or from a plant record.\<close>

lemma plants_loop_entries:
  "plants_loop rt point_dict rest plants = Inr result \<Longrightarrow>
   (key, inner) \<in> set result \<Longrightarrow>
   (key, inner) \<in> set plants
   \<or> (\<exists>items ds. JObj items \<in> set rest \<and> plant_data rt point_dict items = Inr ds
         \<and> inner = dict_of (map (\<lambda>d. (rd_code d, d)) ds))"
proof (induction rest arbitrary: plants)
  case Nil
  then show ?case by simp
next
  case (Cons plant rest)
  from plants_loop_Cons_Inr [OF Cons.prems(1)] obtain items ds i where
    p: "plant = JObj items" "plant_data rt point_dict items = Inr ds"
    and rest: "plants_loop rt point_dict rest
        (AList.update (py_str rt i) (dict_of (map (\<lambda>d. (rd_code d, d)) ds)) plants)
       = Inr result"
    by blast
  from Cons.IH [OF rest Cons.prems(2)] consider
    "(key, inner) \<in> set (AList.update (py_str rt i)
        (dict_of (map (\<lambda>d. (rd_code d, d)) ds)) plants)"
    | "\<exists>items ds. JObj items \<in> set rest \<and> plant_data rt point_dict items = Inr ds
         \<and> inner = dict_of (map (\<lambda>d. (rd_code d, d)) ds)"
    by blast
  then show ?case
  proof cases
    case 1
    with set_update_subset
    have "(key, inner) = (py_str rt i, dict_of (map (\<lambda>d. (rd_code d, d)) ds))
        \<or> (key, inner) \<in> set plants"
      by fastforce
    with p show ?thesis by auto
  next
    case 2
    then show ?thesis by auto
  qed
qed

lemma reshape_Inr:
  assumes "reshape rt res = Inr result"
  shows "\<exists>rd pl points pairs rd' dl plant_list.
           py_getitem res ''result_data'' = Inr rd
         \<and> py_getitem rd ''point_dict'' = Inr pl
         \<and> py_iter pl = Inr points
         \<and> point_pairs rt points = Inr pairs
         \<and> py_getitem res ''result_data'' = Inr rd'
         \<and> py_getitem rd' ''device_point_list'' = Inr dl
         \<and> py_iter dl = Inr plant_list
         \<and> plants_loop rt (dict_of pairs) plant_list [] = Inr result"
proof -
  from assms obtain err where err: "py_contains ''error'' res = Inr err"
    and rest: "(if err then Inl (PySolarCloudException res)
       else
         bind_e (py_getitem res ''result_data'') (\<lambda>rd.
         bind_e (py_getitem rd ''point_dict'') (\<lambda>pl.
         bind_e (py_iter pl) (\<lambda>points.
         bind_e (point_pairs rt points) (\<lambda>pairs.
         bind_e (py_getitem res ''result_data'') (\<lambda>rd'.
         bind_e (py_getitem rd' ''device_point_list'') (\<lambda>dl.
         bind_e (py_iter dl) (\<lambda>plant_list.
           plants_loop rt (dict_of pairs) plant_list [])))))))) = Inr result"
    unfolding reshape_def bind_e_eq_Inr by blast
  from rest have "\<not> err" by (cases err) simp_all
  with rest have
    "bind_e (py_getitem res ''result_data'') (\<lambda>rd.
     bind_e (py_getitem rd ''point_dict'') (\<lambda>pl.
     bind_e (py_iter pl) (\<lambda>points.
     bind_e (point_pairs rt points) (\<lambda>pairs.
     bind_e (py_getitem res ''result_data'') (\<lambda>rd'.
     bind_e (py_getitem rd' ''device_point_list'') (\<lambda>dl.
     bind_e (py_iter dl) (\<lambda>plant_list.
       plants_loop rt (dict_of pairs) plant_list []))))))) = Inr result"
    by simp
  then show ?thesis
    unfolding bind_e_eq_Inr by blast
qed

lemma call_Inr:
  assumes "snd (async_get_realtime_data rt auth lang plant_id mps) = Inr result"
  shows "\<exists>req res b. fst (async_get_realtime_data rt auth lang plant_id mps) = [req]
           \<and> auth req = Inr res \<and> body res = Inr b \<and> reshape rt b = Inr result"
proof (cases "resolve_points mps :: 'a error + string list")
  case (Inl e)
  with assms show ?thesis by (simp add: no_request)
next
  case (Inr ms)
  from assms show ?thesis
    unfolding issued_request [OF Inr] by (simp add: bind_e_eq_Inr)
qed

text \<open>What the result of a call holds: every reading sits under its code, and the code is
  that of its id.\<close>

lemma result_reading_code:
  assumes "snd (async_get_realtime_data rt auth lang plant_id sel) = Inr result"
    and "(pid, inner) \<in> set result"
    and "(k, d) \<in> set inner"
  shows "k = rd_code d \<and> rd_code d = code_of (rd_id d)"
proof -
  from call_Inr [OF assms(1)] obtain b where "reshape rt b = Inr result"
    by blast
  from reshape_Inr [OF this] obtain pairs plant_list where
    "plants_loop rt (dict_of pairs) plant_list [] = Inr result"
    by blast
  from plants_loop_entries [OF this assms(2)] obtain items ds where
    ds: "plant_data rt (dict_of pairs) items = Inr ds"
    and inner: "inner = dict_of (map (\<lambda>d. (rd_code d, d)) ds)"
    by auto
  from assms(3) inner set_dict_of_subset
  have "(k, d) \<in> set (map (\<lambda>d. (rd_code d, d)) ds)"
    by blast
  then have k: "k = rd_code d" and d: "d \<in> set ds"
    by auto
  from plant_data_codes [OF ds d] k show ?thesis by simp
qed

text \<open>A field \<open>p\<close> followed by digits, in the last plant record with its \<open>ps_id\<close>, is in the
  result of the call.\<close>

lemma result_holds_field:
  assumes "snd (async_get_realtime_data rt auth lang plant_id sel) = Inr result"
    and "fst (async_get_realtime_data rt auth lang plant_id sel) = [req]"
    and "auth req = Inr res"
    and "body res = Inr (JObj obj)"
    and "map_of obj ''result_data'' = Some (JObj rd)"
    and "map_of rd ''device_point_list'' = Some (JList (pre @ JObj items # post))"
    and "distinct (map fst items)"
    and "(CHR ''p'' # m, v) \<in> set items"
    and "map_of items ''ps_id'' = Some i"
    and "\<forall>items' j. JObj items' \<in> set post \<and> map_of items' ''ps_id'' = Some j
           \<longrightarrow> py_str rt j \<noteq> py_str rt i"
    and "isdigit m"
  shows "\<exists>inner d. map_of result (py_str rt i) = Some inner
           \<and> map_of inner (code_of m) = Some d
           \<and> rd_id d = m \<and> rd_code d = code_of m \<and> coerce_value rt v = Inr (rd_value d)"
proof -
  from issued_request_inv [OF assms(2)] obtain ms where
    ms: "(resolve_points sel :: 'a error + string list) = Inr ms"
      "req = realtime_request lang (ps_of plant_id) ms"
    by blast
  have "snd (async_get_realtime_data rt auth lang plant_id sel) = reshape rt (JObj obj)"
    using assms(3,4) ms by (simp add: issued_request [OF ms(1)])
  with assms(1) have "reshape rt (JObj obj) = Inr result" by simp
  from reshape_Inr [OF this] obtain pairs rd' dl plant_list where
    r: "py_getitem (JObj obj) ''result_data'' = Inr rd'"
      "py_getitem rd' ''device_point_list'' = Inr dl"
      "py_iter dl = Inr plant_list"
      "plants_loop rt (dict_of pairs) plant_list [] = Inr result"
    by blast
  from r(1) assms(5) have "rd' = JObj rd" by (simp add: py_getitem_Inr)
  with r(2) assms(6) have "dl = JList (pre @ JObj items # post)"
    by (simp add: py_getitem_Inr)
  with r(3) have "plant_list = pre @ JObj items # post"
    by (simp add: py_iter_def)
  with r(4) have "plants_loop rt (dict_of pairs) (pre @ JObj items # post) [] = Inr result"
    by simp
  from plants_loop_append_Inr [OF this] obtain mid where
    "plants_loop rt (dict_of pairs) (JObj items # post) mid = Inr result"
    by blast
  from plants_loop_Cons_Inr [OF this] obtain ds i' where
    ds: "plant_data rt (dict_of pairs) items = Inr ds"
    and i': "map_of items ''ps_id'' = Some i'"
    and rest: "plants_loop rt (dict_of pairs) post
        (AList.update (py_str rt i') (dict_of (map (\<lambda>d. (rd_code d, d)) ds)) mid)
       = Inr result"
    by blast
  from i' assms(9) have i: "i' = i" by simp
  let ?inner = "dict_of (map (\<lambda>d. (rd_code d, d)) ds)"
  have "map_of (AList.update (py_str rt i) ?inner mid) (py_str rt i) = Some ?inner"
    by (simp add: AList.update_conv')
  from plants_loop_keeps [OF rest [unfolded i] this assms(10)]
  have res: "map_of result (py_str rt i) = Some ?inner" .
  from plant_reading_keyed [OF ds assms(7,8,11)] obtain d where
    "map_of ?inner (code_of m) = Some d" "rd_id d = m" "rd_code d = code_of m"
    "coerce_value rt v = Inr (rd_value d)"
    by blast
  with res show ?thesis by blast
qed

subsection \<open>Numeric names\<close>

text \<open>
  C6. Let \<open>m\<close> be a name accepted by \<open>isdigit\<close> that is not an id of the registry.

  Request. Whenever a request is issued for a list of names, its \<open>point_id_list\<close> has \<open>m\<close>
  itself at every position where the list has \<open>m\<close>; a call for \<open>m\<close> alone issues the request
  with \<open>point_id_list = [m]\<close>. The code of \<open>m\<close> is \<open>m\<close>.

  One plant record. For every plant record (with distinct keys) that holds the field \<open>p\<close>
  followed by \<open>m\<close>, the readings of lines 77 and 78 hold under the key \<open>m\<close> the reading with
  id \<open>m\<close>, code \<open>m\<close> and the coerced value of that field.

  Result of the call. In every result that a call returns, each reading sits under its code,
  and a reading has the id \<open>m\<close> exactly when its key is \<open>m\<close>. Moreover, when the decoded body
  lists a plant record (with distinct keys) that holds the field \<open>p\<close> followed by \<open>m\<close> with
  value \<open>w\<close>, and no later record has the same stringified \<open>ps_id\<close>, the result of the call
  maps that plant id to an inner map that holds under the key \<open>m\<close> the reading with id \<open>m\<close>,
  code \<open>m\<close> and the coerced value of \<open>w\<close>.
\<close>

theorem numeric_name_passthrough:
  assumes "isdigit m" and "m \<notin> fst ` set measure_points"
  shows "(fst (async_get_realtime_data rt auth lang plant_id (Some mps)) = [req] \<longrightarrow>
            (\<exists>ms. map_of (params req) ''point_id_list'' = Some (JList (map JStr ms))
                \<and> length ms = length mps
                \<and> (\<forall>i < length mps. mps ! i = m \<longrightarrow> ms ! i = m)))
       \<and> fst (async_get_realtime_data rt auth lang plant_id (Some [m]))
           = [realtime_request lang (ps_of plant_id) [m]]
       \<and> code_of m = m
       \<and> (plant_data rt point_dict items = Inr ds \<and> distinct (map fst items)
            \<and> (CHR ''p'' # m, v) \<in> set items \<longrightarrow>
            (\<exists>d. map_of (dict_of (map (\<lambda>d. (rd_code d, d)) ds)) m = Some d
                \<and> rd_id d = m \<and> rd_code d = m \<and> coerce_value rt v = Inr (rd_value d)))
       \<and> (snd (async_get_realtime_data rt auth lang plant_id sel) = Inr result
            \<and> (pid, inner) \<in> set result \<and> (k, e) \<in> set inner \<longrightarrow>
            k = rd_code e \<and> (rd_id e = m \<longleftrightarrow> k = m))
       \<and> (snd (async_get_realtime_data rt auth lang plant_id sel) = Inr result
            \<and> fst (async_get_realtime_data rt auth lang plant_id sel) = [rq]
            \<and> auth rq = Inr res
            \<and> body res = Inr (JObj obj)
            \<and> map_of obj ''result_data'' = Some (JObj rd)
            \<and> map_of rd ''device_point_list'' = Some (JList (pre @ JObj rec # post))
            \<and> distinct (map fst rec)
            \<and> (CHR ''p'' # m, w) \<in> set rec
            \<and> map_of rec ''ps_id'' = Some i
            \<and> (\<forall>rec' j. JObj rec' \<in> set post \<and> map_of rec' ''ps_id'' = Some j
                  \<longrightarrow> py_str rt j \<noteq> py_str rt i) \<longrightarrow>
            (\<exists>inner' d. map_of result (py_str rt i) = Some inner'
                \<and> map_of inner' m = Some d
                \<and> rd_id d = m \<and> rd_code d = m \<and> coerce_value rt w = Inr (rd_value d)))"
proof -
  have "map_of measure_points m = None"
    using assms(2) by (simp add: map_of_eq_None_iff)
  then have code: "code_of m = m"
    by (simp add: code_of_def)
  have not_name: "m \<notin> snd ` set measure_points"
  proof
    assume "m \<in> snd ` set measure_points"
    then obtain i where "(i, m) \<in> set measure_points" by force
    from registered_name_not_isdigit [OF this] assms(1) show False by simp
  qed
  have request: "\<exists>ms. map_of (params req) ''point_id_list'' = Some (JList (map JStr ms))
      \<and> length ms = length mps \<and> (\<forall>i < length mps. mps ! i = m \<longrightarrow> ms ! i = m)"
    if issued: "fst (async_get_realtime_data rt auth lang plant_id (Some mps)) = [req]"
  proof -
    from issued_request_inv [OF issued] obtain ms where
      ms: "(resolve_points (Some mps) :: 'a error + string list) = Inr ms"
        "req = realtime_request lang (ps_of plant_id) ms"
      by blast
    from ms(1) have "(resolve_names mps :: 'a error + string list) = Inr ms"
      by (simp add: resolve_points_def)
    from resolve_names_digit_position [OF this] assms(1)
    have "length ms = length mps" "\<forall>i < length mps. mps ! i = m \<longrightarrow> ms ! i = m"
      by auto
    moreover have "map_of (params req) ''point_id_list'' = Some (JList (map JStr ms))"
      unfolding ms(2) by (simp add: realtime_request_def)
    ultimately show ?thesis by blast
  qed
  have "(resolve_points (Some [m]) :: 'a error + string list) = Inr [m]"
    using assms(1) by (simp add: resolve_points_def)
  then have alone: "fst (async_get_realtime_data rt auth lang plant_id (Some [m]))
      = [realtime_request lang (ps_of plant_id) [m]]"
    by (simp add: issued_request)
  have one_record: "\<exists>d. map_of (dict_of (map (\<lambda>d. (rd_code d, d)) ds)) m = Some d
       \<and> rd_id d = m \<and> rd_code d = m \<and> coerce_value rt v = Inr (rd_value d)"
    if "plant_data rt point_dict items = Inr ds \<and> distinct (map fst items)
            \<and> (CHR ''p'' # m, v) \<in> set items"
  proof -
    from that have h: "plant_data rt point_dict items = Inr ds" "distinct (map fst items)"
        "(CHR ''p'' # m, v) \<in> set items"
      by simp_all
    from plant_reading_keyed [OF h assms(1)] show ?thesis
      unfolding code .
  qed
  have keyed: "k = rd_code e \<and> (rd_id e = m \<longleftrightarrow> k = m)"
    if "snd (async_get_realtime_data rt auth lang plant_id sel) = Inr result
            \<and> (pid, inner) \<in> set result \<and> (k, e) \<in> set inner"
  proof -
    from that have h: "snd (async_get_realtime_data rt auth lang plant_id sel) = Inr result"
        "(pid, inner) \<in> set result" "(k, e) \<in> set inner"
      by simp_all
    from result_reading_code [OF h] have ke: "k = rd_code e" "rd_code e = code_of (rd_id e)"
      by simp_all
    have "rd_id e = m \<longleftrightarrow> k = m"
    proof
      assume "rd_id e = m"
      with ke code show "k = m" by simp
    next
      assume "k = m"
      with ke have "code_of (rd_id e) = m" by simp
      from code_of_unregistered [OF this not_name] show "rd_id e = m" .
    qed
    with ke(1) show ?thesis by simp
  qed
  have held: "\<exists>inner' d. map_of result (py_str rt i) = Some inner'
                \<and> map_of inner' m = Some d
                \<and> rd_id d = m \<and> rd_code d = m \<and> coerce_value rt w = Inr (rd_value d)"
    if "snd (async_get_realtime_data rt auth lang plant_id sel) = Inr result
            \<and> fst (async_get_realtime_data rt auth lang plant_id sel) = [rq]
            \<and> auth rq = Inr res
            \<and> body res = Inr (JObj obj)
            \<and> map_of obj ''result_data'' = Some (JObj rd)
            \<and> map_of rd ''device_point_list'' = Some (JList (pre @ JObj rec # post))
            \<and> distinct (map fst rec)
            \<and> (CHR ''p'' # m, w) \<in> set rec
            \<and> map_of rec ''ps_id'' = Some i
            \<and> (\<forall>rec' j. JObj rec' \<in> set post \<and> map_of rec' ''ps_id'' = Some j
                  \<longrightarrow> py_str rt j \<noteq> py_str rt i)"
  proof -
    from that have h:
      "snd (async_get_realtime_data rt auth lang plant_id sel) = Inr result"
      "fst (async_get_realtime_data rt auth lang plant_id sel) = [rq]"
      "auth rq = Inr res"
      "body res = Inr (JObj obj)"
      "map_of obj ''result_data'' = Some (JObj rd)"
      "map_of rd ''device_point_list'' = Some (JList (pre @ JObj rec # post))"
      "distinct (map fst rec)"
      "(CHR ''p'' # m, w) \<in> set rec"
      "map_of rec ''ps_id'' = Some i"
      "\<forall>rec' j. JObj rec' \<in> set post \<and> map_of rec' ''ps_id'' = Some j
         \<longrightarrow> py_str rt j \<noteq> py_str rt i"
      by blast+
    from result_holds_field [OF h assms(1)] show ?thesis
      unfolding code .
  qed
  from request alone code one_record keyed held show ?thesis
    by blast
qed

theorem numeric_name_passthrough_witness:
  "fst (async_get_realtime_data sample_builtins
          (sample_auth (realtime_body []
             [JObj [(''ps_id'', JInt 1000)],
              JObj [(''ps_id'', JInt 1001), (''p83099'', JStr ''7.5'')]]))
          ''_en_US'' (Many [''1000'', ''1001'']) (Some [''83099'']))
     = [realtime_request ''_en_US'' [''1000'', ''1001''] [''83099'']]
   \<and> code_of ''83099'' = ''83099''
   \<and> snd (async_get_realtime_data sample_builtins
          (sample_auth (realtime_body []
             [JObj [(''ps_id'', JInt 1000)],
              JObj [(''ps_id'', JInt 1001), (''p83099'', JStr ''7.5'')]]))
          ''_en_US'' (Many [''1000'', ''1001'']) (Some [''83099'']))
     = Inr [(''1000'', []),
            (''1001'', [(''83099'',
               \<lparr>rd_id = ''83099'', rd_code = ''83099'', rd_value = JFloat (75, 1),
                rd_unit = JNull, rd_name = JNull\<rparr>)])]
   \<and> (\<exists>inner' d.
          map_of [(''1000'', []),
                  (''1001'', [(''83099'',
                     \<lparr>rd_id = ''83099'', rd_code = ''83099'', rd_value = JFloat (75, 1),
                      rd_unit = JNull, rd_name = JNull\<rparr>)])] ''1001'' = Some inner'
        \<and> map_of inner' ''83099'' = Some d
        \<and> rd_id d = ''83099'' \<and> rd_code d = ''83099''
        \<and> coerce_value sample_builtins (JStr ''7.5'') = Inr (rd_value d))"
proof -
  let ?first = "[(''ps_id'', JInt 1000)] :: (string \<times> (int \<times> nat) json) list"
  let ?second = "[(''ps_id'', JInt 1001), (''p83099'', JStr ''7.5'')]
                :: (string \<times> (int \<times> nat) json) list"
  let ?rd = "[(''point_dict'', JList []),
              (''device_point_list'', JList [JObj ?first, JObj ?second])]
               :: (string \<times> (int \<times> nat) json) list"
  let ?obj = "[(''req_serial_num'', JStr ''x''), (''result_code'', JStr ''1''),
               (''result_data'', JObj ?rd)] :: (string \<times> (int \<times> nat) json) list"
  let ?body = "realtime_body [] [JObj ?first, JObj ?second] :: (int \<times> nat) json"
  let ?r = "\<lparr>rd_id = ''83099'', rd_code = ''83099'', rd_value = JFloat (75, 1),
             rd_unit = JNull, rd_name = JNull\<rparr> :: (int \<times> nat) reading"
  let ?result = "[(''1000'', []), (''1001'', [(''83099'', ?r)])]
                   :: (int \<times> nat) realtime"
  let ?req = "realtime_request ''_en_US'' [''1000'', ''1001''] [''83099'']
                :: (int \<times> nat) request"
  let ?res = "\<lparr>status_error = None, body = Inr ?body\<rparr> :: (int \<times> nat) response"
  let ?call = "async_get_realtime_data sample_builtins (sample_auth ?body) ''_en_US''
                 (Many [''1000'', ''1001'']) (Some [''83099''])"
  have dig: "isdigit ''83099''"
    by (simp add: isdigit_def isdigit_char_def)
  have unreg: "''83099'' \<notin> fst ` set measure_points"
    by (simp add: measure_points_def)
  note th = numeric_name_passthrough [OF dig unreg, where rt = sample_builtins
      and auth = "sample_auth ?body" and lang = "''_en_US''"
      and plant_id = "Many [''1000'', ''1001'']"
      and mps = "[''83099'']" and req = ?req
      and point_dict = "[]" and items = ?second and ds = "[?r]" and v = "JStr ''7.5''"
      and sel = "Some [''83099'']" and result = ?result
      and pid = "''1001''" and inner = "[(''83099'', ?r)]" and k = "''83099''" and e = ?r
      and rq = ?req and res = ?res and obj = ?obj and rd = ?rd
      and pre = "[JObj ?first]" and rec = ?second and post = "[]"
      and w = "JStr ''7.5''" and i = "JInt 1001"]
  from th have code: "code_of ''83099'' = ''83099''"
    by blast
  from th have issued: "fst ?call = [realtime_request ''_en_US''
      (ps_of (Many [''1000'', ''1001''])) [''83099'']]"
    by blast
  then have issued': "fst ?call = [?req]"
    by (simp add: ps_of_def)
  have fl: "float_of_str sample_builtins ''7.5'' = Some (75, 1)"
    unfolding sample_builtins_def by (simp, code_simp)
  have f: "format_measure_point sample_builtins ''83099'' (JStr ''7.5'') [] = Inr ?r"
    by (simp add: format_measure_point_def coerce_value_str fl catalog_field_def py_get_def code)
  have ns: "\<not> isdigit ''s_id''"
    by (simp add: isdigit_def isdigit_char_def)
  have pd0: "plant_data sample_builtins [] ?first = Inr []"
    using ns by simp
  have pd: "plant_data sample_builtins [] ?second = Inr [?r]"
    using f ns dig by simp
  have r: "(resolve_points (Some [''83099'']) :: (int \<times> nat) error + string list)
             = Inr [''83099'']"
    using dig by (simp add: resolve_points_def)
  have str0: "str_int 1000 = ''1000''"
    by (simp add: str_int_def str_nat.simps)
  have str1: "str_int 1001 = ''1001''"
    by (simp add: str_int_def str_nat.simps)
  have key: "py_str sample_builtins (JInt 1001) = ''1001''"
    by (simp add: py_str_def str1)
  have "reshape sample_builtins ?body
          = plants_loop sample_builtins (dict_of []) [JObj ?first, JObj ?second] []"
    unfolding realtime_body_def
    by (rule reshape_body [where rd = ?rd and points = "[]"
          and plants = "[JObj ?first, JObj ?second]"])
      simp_all
  also have "\<dots> = Inr ?result"
    using pd0 pd by (simp add: py_items_def py_getitem_def py_str_def dict_of_def str0 str1)
  finally have out: "snd ?call = Inr ?result"
    by (simp add: sample_auth_outcome [OF r])
  have hyp: "snd ?call = Inr ?result
      \<and> fst ?call = [?req]
      \<and> sample_auth ?body ?req = Inr ?res
      \<and> body ?res = Inr (JObj ?obj)
      \<and> map_of ?obj ''result_data'' = Some (JObj ?rd)
      \<and> map_of ?rd ''device_point_list'' = Some (JList ([JObj ?first] @ JObj ?second # []))
      \<and> distinct (map fst ?second)
      \<and> (CHR ''p'' # ''83099'', JStr ''7.5'') \<in> set ?second
      \<and> map_of ?second ''ps_id'' = Some (JInt 1001)
      \<and> (\<forall>rec' j. JObj rec' \<in> set [] \<and> map_of rec' ''ps_id'' = Some j
            \<longrightarrow> py_str sample_builtins j \<noteq> py_str sample_builtins (JInt 1001))"
    using out issued' by (simp add: sample_auth_def realtime_body_def)
  from th hyp have "\<exists>inner' d. map_of ?result (py_str sample_builtins (JInt 1001)) = Some inner'
      \<and> map_of inner' ''83099'' = Some d
      \<and> rd_id d = ''83099'' \<and> rd_code d = ''83099''
      \<and> coerce_value sample_builtins (JStr ''7.5'') = Inr (rd_value d)"
    by blast
  then have held: "\<exists>inner' d. map_of ?result ''1001'' = Some inner'
      \<and> map_of inner' ''83099'' = Some d
      \<and> rd_id d = ''83099'' \<and> rd_code d = ''83099''
      \<and> coerce_value sample_builtins (JStr ''7.5'') = Inr (rd_value d)"
    unfolding key .
  from issued' code out held show ?thesis
    by blast
qed

end
